theory Spec2Isabelle
  imports Main "HOL-Library.AList" "HOL-Library.Sublist" "HOL-Library.List_Lexorder"
    "HOL-Library.Char_ord"
begin

section \<open>httppal: one HTTP request from the command line\<close>

text \<open>
  The program is the single function \<open>main\<close> of \<open>main.go\<close>. It reads five flags and the
  trailing positional arguments, builds one request, hands it to the standard HTTP client
  and prints the status line, the response headers and the body re-indented as JSON.

  The model is a function from the parsed command line and a \<open>world\<close> to the ordered list
  of observable events and the way the process ends. The \<open>world\<close> holds what \<open>main\<close> cannot
  decide by itself: the answers of the standard library's URL parser, of the file system,
  of the network and of the JSON codec. Go strings are byte sequences, as HOL's \<open>string\<close>.
\<close>

subsection \<open>Data\<close>

text \<open>
  The values of the flags after \<open>flag.Parse()\<close> (lines 32 to 37) and \<open>flag.Args()\<close>;
  \<open>methodStr\<close> is the variable \<open>method\<close> of the source.
\<close>

record cmdline =
  urlStr :: string
  methodStr :: string
  reqBodyFile :: string
  followRedirects :: bool
  authStr :: string
  args :: "string list"

text \<open>
  \<open>http.Header\<close> and \<open>url.Values\<close> are \<open>map[string][]string\<close>: an association list with
  one entry for each key. A map that was never made is the nil map, \<open>None\<close> below.
\<close>

type_synonym Header = "(string \<times> string list) list"

record AuthParams =
  Username :: string
  Password :: string

text \<open>\<open>Body\<close> is the open file, named by its path; \<open>None\<close> is the nil reader.\<close>

record RequestParams =
  Method :: string
  Headers :: "Header option"
  Body :: "string option"
  FollowRedirects :: bool
  Auth :: "AuthParams option"
  QueryParams :: "Header option"

text \<open>The \<open>*http.Request\<close> that \<open>http.NewRequest\<close> returns, and the \<open>*http.Response\<close>.\<close>

record request =
  req_method :: string
  req_url :: string
  req_header :: Header
  req_body :: "string option"

text \<open>
  \<open>resp_header\<close> lists the entries in the order in which \<open>range resp.Header\<close> yields them;
  \<open>resp_body\<close> is what \<open>ioutil.ReadAll(resp.Body)\<close> gives: the error text or the bytes.
\<close>

record response =
  ProtoMajor :: int
  ProtoMinor :: int
  Status :: string
  resp_header :: Header
  resp_body :: "string + string"

text \<open>A decoded JSON value. A number keeps the text of the \<open>float64\<close> it was read as.\<close>

datatype json =
    JNull
  | JBool bool
  | JNumber string
  | JString string
  | JArray "json list"
  | JObject "(string \<times> json) list"

text \<open>
  What an observer of the process sees, in order. \<open>Stdout\<close> and \<open>Stderr\<close> carry the bytes of
  one write; \<open>Log\<close> is the message of one \<open>log.Fatalf\<close> (the logger writes it to standard
  error after its time stamp); \<open>Sent\<close> is one request put on the wire.
\<close>

datatype event =
    Stdout string
  | Stderr string
  | Log string
  | Opened string
  | Closed string
  | Sent request
  | Closed_response_body

text \<open>
  How the process ends: \<open>main\<close> returns (exit status 0), \<open>os.Exit n\<close>, or a run-time panic
  (the Go run time prints the panic and exits with status 2).
\<close>

datatype ending = Returned | Exited nat | Panicked string

fun exit_status :: "ending \<Rightarrow> nat" where
  "exit_status Returned = 0"
| "exit_status (Exited n) = n"
| "exit_status (Panicked msg) = 2"

text \<open>
  The collaborators. An \<open>option\<close> result is the \<open>error\<close> a call returns (\<open>None\<close> is \<open>nil\<close>), a
  sum has the error text on the left.
  \<^item> \<open>url_Parse\<close>: \<open>url.Parse\<close>;
  \<^item> \<open>os_Open\<close>: \<open>os.Open\<close>;
  \<^item> \<open>http_NewRequest\<close>: the checks of \<open>http.NewRequest\<close> on the method and the URL;
  \<^item> \<open>RoundTrip\<close>: one exchange with the server;
  \<^item> \<open>redirect\<close>: the follow-up request the client derives from a response, when the
    response is a redirect that it can follow;
  \<^item> \<open>exchanges_in_time\<close>: how many exchanges complete within \<open>Timeout: 30 * time.Second\<close>;
  \<^item> \<open>json_decode\<close>: \<open>encoding/json\<close> reading a document into an \<open>interface{}\<close>;
  \<^item> \<open>json_MarshalIndent\<close>: \<open>json.MarshalIndent\<close> of a decoded value, with its prefix and
    indent arguments.
\<close>

record world =
  url_Parse :: "string \<Rightarrow> string option"
  os_Open :: "string \<Rightarrow> string option"
  http_NewRequest :: "string \<Rightarrow> string \<Rightarrow> string option"
  RoundTrip :: "request \<Rightarrow> string + response"
  redirect :: "request \<Rightarrow> response \<Rightarrow> request option"
  exchanges_in_time :: nat
  json_decode :: "string \<Rightarrow> string + json"
  json_MarshalIndent :: "json \<Rightarrow> string \<Rightarrow> string \<Rightarrow> string + string"

subsection \<open>Steps that write events and may end the process\<close>

type_synonym 'a step = "event list \<times> (ending + 'a)"

definition ok :: "'a \<Rightarrow> 'a step" where
  "ok a = ([], Inr a)"

definition Fatalf :: "string \<Rightarrow> 'a step" where
  "Fatalf msg = ([Log msg], Inl (Exited 1))"

definition panic :: "string \<Rightarrow> 'a step" where
  "panic msg = ([], Inl (Panicked msg))"

definition and_then :: "'a step \<Rightarrow> ('a \<Rightarrow> 'b step) \<Rightarrow> 'b step" where
  "and_then m f =
     (case m of
        (es, Inl t) \<Rightarrow> (es, Inl t)
      | (es, Inr a) \<Rightarrow> (case f a of (es', r) \<Rightarrow> (es @ es', r)))"

text \<open>
  \<open>defer resp.Body.Close()\<close>: the call runs when \<open>main\<close> returns or panics, and does not run
  when the process leaves through \<open>os.Exit\<close> (as \<open>log.Fatalf\<close> does).
\<close>

definition deferred :: "event \<Rightarrow> 'a step \<Rightarrow> 'a step" where
  "deferred ev m =
     (case m of
        (es, Inl (Exited n)) \<Rightarrow> (es, Inl (Exited n))
      | (es, r) \<Rightarrow> (es @ [ev], r))"

definition finish :: "unit step \<Rightarrow> event list \<times> ending" where
  "finish m = (case m of (es, Inl t) \<Rightarrow> (es, t) | (es, Inr u) \<Rightarrow> (es, Returned))"

subsection \<open>Standard-library functions with a fixed result\<close>

definition nl :: string where
  "nl = [CHR 0x0A]"

definition quoted :: "string \<Rightarrow> string" where
  "quoted s = [CHR 0x27] @ s @ [CHR 0x27]"

text \<open>\<open>strings.SplitN(s, ":", 2)\<close>: at most two parts, cut at the first colon.\<close>

definition SplitN_colon_2 :: "string \<Rightarrow> string list" where
  "SplitN_colon_2 s =
     (if CHR '':'' \<in> set s
      then [takeWhile (\<lambda>c. c \<noteq> CHR '':'') s, tl (dropWhile (\<lambda>c. c \<noteq> CHR '':'') s)]
      else [s])"

text \<open>
  \<open>strings.TrimSpace\<close> on the ASCII white space (tab, line feed, vertical tab, form feed,
  carriage return, space). Go also removes the Unicode spaces outside ASCII.
\<close>

definition is_space :: "char \<Rightarrow> bool" where
  "is_space c = (c \<in> set [CHR 0x09, CHR 0x0A, CHR 0x0B, CHR 0x0C, CHR 0x0D, CHR '' ''])"

definition TrimSpace :: "string \<Rightarrow> string" where
  "TrimSpace s = rev (dropWhile is_space (rev (dropWhile is_space s)))"

text \<open>\<open>%d\<close> of \<open>fmt.Printf\<close>.\<close>

fun show_nat :: "nat \<Rightarrow> string" where
  "show_nat n =
     (if n < 10 then [char_of (48 + n)]
      else show_nat (n div 10) @ [char_of (48 + n mod 10)])"

definition show_int :: "int \<Rightarrow> string" where
  "show_int i = (if i < 0 then CHR ''-'' # show_nat (nat (- i)) else show_nat (nat i))"

text \<open>\<open>base64.StdEncoding.EncodeToString\<close>: three bytes become four digits, padded with \<open>=\<close>.\<close>

definition b64_digit :: "nat \<Rightarrow> char" where
  "b64_digit n =
     (''ABCDEFGHIJKLMNOPQRSTUVWXYZabcdefghijklmnopqrstuvwxyz0123456789+/'') ! (n mod 64)"

fun b64_encode :: "nat list \<Rightarrow> string" where
  "b64_encode (a # b # c # rest) =
     [b64_digit (a div 4),
      b64_digit ((a mod 4) * 16 + b div 16),
      b64_digit ((b mod 16) * 4 + c div 64),
      b64_digit (c mod 64)] @ b64_encode rest"
| "b64_encode [a, b] =
     [b64_digit (a div 4),
      b64_digit ((a mod 4) * 16 + b div 16),
      b64_digit ((b mod 16) * 4),
      CHR ''='']"
| "b64_encode [a] =
     [b64_digit (a div 4), b64_digit ((a mod 4) * 16), CHR ''='', CHR ''='']"
| "b64_encode [] = []"

definition EncodeToString :: "string \<Rightarrow> string" where
  "EncodeToString s = b64_encode (map of_char s)"

text \<open>
  \<open>textproto.CanonicalMIMEHeaderKey\<close>: a key made of token bytes only gets an upper-case
  first letter and an upper-case letter after each dash, the other letters in lower case;
  any other key is left as it is.
\<close>

definition validHeaderFieldByte :: "char \<Rightarrow> bool" where
  "validHeaderFieldByte c =
     (let n = (of_char c :: nat) in
        (48 \<le> n \<and> n \<le> 57) \<or> (65 \<le> n \<and> n \<le> 90) \<or> (97 \<le> n \<and> n \<le> 122) \<or>
        n \<in> set [0x21, 0x23, 0x24, 0x25, 0x26, 0x27, 0x2A, 0x2B, 0x2D, 0x2E, 0x5E, 0x5F, 0x60,
                  0x7C, 0x7E])"

definition canon_byte :: "bool \<Rightarrow> char \<Rightarrow> char" where
  "canon_byte upper c =
     (let n = (of_char c :: nat) in
        if upper \<and> 97 \<le> n \<and> n \<le> 122 then char_of (n - 32)
        else if \<not> upper \<and> 65 \<le> n \<and> n \<le> 90 then char_of (n + 32)
        else c)"

fun canon_bytes :: "bool \<Rightarrow> string \<Rightarrow> string" where
  "canon_bytes upper [] = []"
| "canon_bytes upper (c # cs) =
     canon_byte upper c # canon_bytes (canon_byte upper c = CHR ''-'') cs"

definition CanonicalMIMEHeaderKey :: "string \<Rightarrow> string" where
  "CanonicalMIMEHeaderKey s = (if list_all validHeaderFieldByte s then canon_bytes True s else s)"

text \<open>
  \<open>Header.Set(key, value)\<close> is \<open>h[CanonicalMIMEHeaderKey(key)] = []string{value}\<close>. The
  assignment to an entry of a nil map is a run-time panic.
\<close>

definition Header_Set :: "Header option \<Rightarrow> string \<Rightarrow> string \<Rightarrow> Header step" where
  "Header_Set h key v =
     (case h of
        None \<Rightarrow> panic ''assignment to entry in nil map''
      | Some m \<Rightarrow> ok (AList.update (CanonicalMIMEHeaderKey key) [v] m))"

text \<open>
  \<open>flag.PrintDefaults()\<close> writes to standard error one entry for each defined flag, in
  the lexical order of the names. A string flag shows the type name \<open>string\<close> and, when its
  default is not empty, the quoted default; a flag of type bool shows neither. No usage
  text of this program holds a back quote, which would name the type.
\<close>

datatype flag_value = stringValue | boolValue

record Flag =
  Name :: string
  Usage :: string
  DefValue :: string
  Value :: flag_value

definition flag_type :: "Flag \<Rightarrow> string" where
  "flag_type f = (case Value f of stringValue \<Rightarrow> ''string'' | boolValue \<Rightarrow> [])"

definition isZeroValue :: "Flag \<Rightarrow> bool" where
  "isZeroValue f =
     (DefValue f = (case Value f of stringValue \<Rightarrow> [] | boolValue \<Rightarrow> ''false''))"

definition flag_entry :: "Flag \<Rightarrow> string" where
  "flag_entry f =
     (let head = ''  -'' @ Name f @ (if flag_type f = [] then [] else '' '' @ flag_type f);
          gap = (if length head \<le> 4 then [CHR 0x09] else nl @ ''    '' @ [CHR 0x09]);
          usage = concat (map (\<lambda>c. if c = CHR 0x0A then nl @ ''    '' @ [CHR 0x09] else [c]) (Usage f));
          dflt = (if isZeroValue f then []
                  else case Value f of
                         stringValue \<Rightarrow> '' (default '' @ [CHR 0x22] @ DefValue f @ [CHR 0x22] @ '')''
                       | boolValue \<Rightarrow> '' (default '' @ DefValue f @ '')'')
      in head @ gap @ usage @ dflt @ nl)"

definition PrintDefaults :: "Flag list \<Rightarrow> event list" where
  "PrintDefaults fs = map (\<lambda>f. Stderr (flag_entry f)) (sort_key Name fs)"

subsection \<open>The function main\<close>

text \<open>Lines 32 to 36: the five flags, in the order of their definition.\<close>

definition flags :: "Flag list" where
  "flags =
     [\<lparr>Name = ''url'', Usage = ''The URL to make the request to'', DefValue = [],
        Value = stringValue\<rparr>,
      \<lparr>Name = ''method'', Usage = ''The HTTP method to use'', DefValue = ''GET'',
        Value = stringValue\<rparr>,
      \<lparr>Name = ''file'', Usage = ''The name of a file to use as the request body'',
        DefValue = [], Value = stringValue\<rparr>,
      \<lparr>Name = ''follow'', Usage = ''Whether to follow redirects'', DefValue = ''false'',
        Value = boolValue\<rparr>,
      \<lparr>Name = ''auth'',
        Usage = ''The username and password for basic authentication in the format ''
                @ quoted ''username:password'',
        DefValue = [], Value = stringValue\<rparr>]"

text \<open>Lines 39 to 50: the usage exit, and the URL handed to \<open>url.Parse\<close>.\<close>

definition usage :: "event list" where
  "usage =
     [Stdout (''Usage: httpreq -url <url> [options]'' @ nl), Stdout (''Options:'' @ nl)]
     @ PrintDefaults flags"

definition check_url :: "world \<Rightarrow> cmdline \<Rightarrow> unit step" where
  "check_url w c =
     (if urlStr c = [] then (usage, Inl (Exited 1))
      else case url_Parse w (urlStr c) of
             Some err \<Rightarrow> Fatalf (''Error: Invalid URL '' @ quoted (urlStr c) @ '': '' @ err)
           | None \<Rightarrow> ok ())"

text \<open>Lines 52 to 60: the request body file. Nothing in \<open>main\<close> closes it.\<close>

definition open_body :: "world \<Rightarrow> cmdline \<Rightarrow> string option step" where
  "open_body w c =
     (if reqBodyFile c \<noteq> [] then
        (case os_Open w (reqBodyFile c) of
           Some err \<Rightarrow>
             Fatalf (''Error: Could not read file '' @ quoted (reqBodyFile c) @ '': '' @ err)
         | None \<Rightarrow> ([Opened (reqBodyFile c)], Inr (Some (reqBodyFile c))))
      else ok None)"

text \<open>Lines 62 to 70: the credentials.\<close>

definition parse_auth :: "cmdline \<Rightarrow> AuthParams option step" where
  "parse_auth c =
     (if authStr c \<noteq> [] then
        (case SplitN_colon_2 (authStr c) of
           [u, p] \<Rightarrow> ok (Some \<lparr>Username = u, Password = p\<rparr>)
         | _ \<Rightarrow> Fatalf (''Error: Invalid auth credentials '' @ quoted (authStr c)))
      else ok None)"

text \<open>
  Lines 72 to 87. The composite literal sets four fields; \<open>Headers\<close> and \<open>QueryParams\<close> keep
  their zero value, the nil map. The loop then calls \<open>Set\<close> on \<open>reqParams.Headers\<close>.
\<close>

definition new_RequestParams :: "cmdline \<Rightarrow> string option \<Rightarrow> AuthParams option \<Rightarrow> RequestParams" where
  "new_RequestParams c reqBody auth =
     \<lparr>Method = methodStr c, Headers = None, Body = reqBody,
      FollowRedirects = followRedirects c, Auth = auth, QueryParams = None\<rparr>"

fun add_headers :: "RequestParams \<Rightarrow> string list \<Rightarrow> RequestParams step" where
  "add_headers reqParams [] = ok reqParams"
| "add_headers reqParams (header # rest) =
     (case SplitN_colon_2 header of
        [name, v] \<Rightarrow>
          and_then (Header_Set (Headers reqParams) (TrimSpace name) (TrimSpace v))
            (\<lambda>h. add_headers (reqParams\<lparr>Headers := Some h\<rparr>) rest)
      | _ \<Rightarrow> Fatalf (''Error: Invalid header '' @ quoted header))"

text \<open>
  Lines 89 to 104. \<open>http.NewRequest\<close> reads an empty method as GET and gives the request an
  empty, non-nil header. The range over a nil map runs no iteration; \<open>v[0]\<close> of an empty
  slice is a panic.
\<close>

fun copy_headers :: "Header \<Rightarrow> Header \<Rightarrow> Header step" where
  "copy_headers [] h = ok h"
| "copy_headers ((k, v) # rest) h =
     (case v of
        [] \<Rightarrow> panic ''index out of range [0] with length 0''
      | v0 # vs \<Rightarrow> and_then (Header_Set (Some h) k v0) (copy_headers rest))"

definition add_auth :: "AuthParams option \<Rightarrow> Header \<Rightarrow> Header step" where
  "add_auth auth h =
     (case auth of
        None \<Rightarrow> ok h
      | Some a \<Rightarrow>
          Header_Set (Some h) ''Authorization''
            (''Basic '' @ EncodeToString (Username a @ '':'' @ Password a)))"

definition build_request :: "world \<Rightarrow> cmdline \<Rightarrow> RequestParams \<Rightarrow> request step" where
  "build_request w c reqParams =
     (case http_NewRequest w (Method reqParams) (urlStr c) of
        Some err \<Rightarrow> Fatalf (''Error creating request object: '' @ err)
      | None \<Rightarrow>
          and_then
            (case Headers reqParams of None \<Rightarrow> ok [] | Some m \<Rightarrow> copy_headers m [])
            (\<lambda>h. and_then (add_auth (Auth reqParams) h)
               (\<lambda>h'. ok \<lparr>req_method = (if Method reqParams = [] then ''GET'' else Method reqParams),
                          req_url = urlStr c, req_header = h', req_body = Body reqParams\<rparr>)))"

text \<open>
  Lines 106 to 122. The closure given as \<open>CheckRedirect\<close> ignores its arguments and reads
  \<open>reqParams.FollowRedirects\<close>; \<open>None\<close> is the nil error.
\<close>

datatype redirect_error = ErrUseLastResponse | Other_error string

definition CheckRedirect :: "RequestParams \<Rightarrow> request \<Rightarrow> request list \<Rightarrow> redirect_error option" where
  "CheckRedirect reqParams req via =
     (if \<not> FollowRedirects reqParams then Some ErrUseLastResponse else None)"

text \<open>
  \<open>Client.Do\<close>, as the documentation of \<open>net/http\<close> describes it: the client sends the
  request; when the response is a redirect it asks \<open>CheckRedirect\<close> with the follow-up
  request and the requests made so far; on \<open>ErrUseLastResponse\<close> it returns the most recent
  response with a nil error, on another error it fails, on nil it goes on with the
  follow-up request. A client with a \<open>CheckRedirect\<close> of its own has no limit on the number
  of redirects; the exchange ends with an error when the timeout is over. The first
  argument counts the exchanges that still fit into the timeout.
\<close>

fun client_loop ::
  "world \<Rightarrow> (request \<Rightarrow> request list \<Rightarrow> redirect_error option) \<Rightarrow> nat \<Rightarrow> request \<Rightarrow>
   request list \<Rightarrow> event list \<times> (string + response)" where
  "client_loop w check 0 req via = ([], Inl ''Client.Timeout exceeded'')"
| "client_loop w check (Suc n) req via =
     (case RoundTrip w req of
        Inl err \<Rightarrow> ([Sent req], Inl err)
      | Inr resp \<Rightarrow>
          (case redirect w req resp of
             None \<Rightarrow> ([Sent req], Inr resp)
           | Some next_req \<Rightarrow>
               (case check next_req (via @ [req]) of
                  Some ErrUseLastResponse \<Rightarrow> ([Sent req], Inr resp)
                | Some (Other_error err) \<Rightarrow> ([Sent req], Inl err)
                | None \<Rightarrow>
                    (case client_loop w check n next_req (via @ [req]) of
                       (es, r) \<Rightarrow> (Sent req # es, r)))))"

text \<open>
  The transport closes the body of the request it was given, also when the exchange
  fails. An error of \<open>client.Do\<close> is fatal (lines 119 to 121).
\<close>

definition client_Do :: "world \<Rightarrow> RequestParams \<Rightarrow> request \<Rightarrow> response step" where
  "client_Do w reqParams req =
     (case client_loop w (CheckRedirect reqParams) (exchanges_in_time w) req [] of
        (es, r) \<Rightarrow>
          and_then (es @ (case req_body req of None \<Rightarrow> [] | Some f \<Rightarrow> [Closed f]), Inr ())
            (\<lambda>u. case r of
                    Inl err \<Rightarrow> Fatalf (''Error making request: '' @ err)
                  | Inr resp \<Rightarrow> ok resp))"

text \<open>Lines 124 to 131: the status line, one line for each header, an empty line.\<close>

definition status_line :: "response \<Rightarrow> string" where
  "status_line resp =
     ''HTTP/'' @ show_int (ProtoMajor resp) @ ''.'' @ show_int (ProtoMinor resp) @ '' ''
       @ Status resp @ nl"

fun print_headers :: "Header \<Rightarrow> unit step" where
  "print_headers [] = ok ()"
| "print_headers ((k, v) # rest) =
     (case v of
        [] \<Rightarrow> panic ''index out of range [0] with length 0''
      | v0 # vs \<Rightarrow>
          and_then ([Stdout (k @ '': '' @ v0 @ nl)], Inr ()) (\<lambda>u. print_headers rest))"

text \<open>
  Lines 138 to 142: \<open>data\<close> is a \<open>map[string]interface{}\<close>. \<open>json.Unmarshal\<close> into it takes a
  JSON object, and the literal \<open>null\<close> (which leaves the map nil); for any other JSON value
  it returns an \<open>UnmarshalTypeError\<close>. The import list of \<open>main.go\<close> does not name
  \<open>encoding/json\<close>; the model reads \<open>json\<close> as that package.
\<close>

fun json_kind :: "json \<Rightarrow> string" where
  "json_kind JNull = ''null''"
| "json_kind (JBool b) = ''bool''"
| "json_kind (JNumber n) = ''number''"
| "json_kind (JString s) = ''string''"
| "json_kind (JArray vs) = ''array''"
| "json_kind (JObject kvs) = ''object''"

definition Unmarshal :: "world \<Rightarrow> string \<Rightarrow> string + (string \<times> json) list option" where
  "Unmarshal w body =
     (case json_decode w body of
        Inl err \<Rightarrow> Inl err
      | Inr (JObject kvs) \<Rightarrow> Inr (Some kvs)
      | Inr JNull \<Rightarrow> Inr None
      | Inr v \<Rightarrow>
          Inl (''json: cannot unmarshal '' @ json_kind v
               @ '' into Go value of type map[string]interface {}''))"

definition MarshalIndent ::
  "world \<Rightarrow> (string \<times> json) list option \<Rightarrow> string \<Rightarrow> string \<Rightarrow> string + string" where
  "MarshalIndent w data pre indent =
     json_MarshalIndent w (case data of None \<Rightarrow> JNull | Some kvs \<Rightarrow> JObject kvs) pre indent"

text \<open>Lines 133 to 155: the body.\<close>

definition print_body :: "world \<Rightarrow> response \<Rightarrow> unit step" where
  "print_body w resp =
     (case resp_body resp of
        Inl err \<Rightarrow> Fatalf (''Error reading response body: '' @ err)
      | Inr body \<Rightarrow>
          (case Unmarshal w body of
             Inl err \<Rightarrow> ([Stdout (''Error unmarshaling JSON: '' @ err @ nl)], Inr ())
           | Inr data \<Rightarrow>
               (case MarshalIndent w data [] ''  '' of
                  Inl err \<Rightarrow> ([Stdout (''Error marshaling JSON: '' @ err @ nl)], Inr ())
                | Inr prettyJSON \<Rightarrow> ([Stdout (prettyJSON @ nl)], Inr ()))))"

definition render :: "world \<Rightarrow> response \<Rightarrow> unit step" where
  "render w resp =
     and_then ([Stdout (status_line resp)], Inr ())
       (\<lambda>u. and_then (print_headers (resp_header resp))
          (\<lambda>u. and_then ([Stdout nl], Inr ()) (\<lambda>u. print_body w resp)))"

text \<open>
  The whole of \<open>main\<close>, in the order of the source: lines 39 to 87 prepare the request
  parameters from the command line, lines 89 to 155 perform the exchange and print.
\<close>

definition prepare :: "world \<Rightarrow> cmdline \<Rightarrow> RequestParams step" where
  "prepare w c =
     and_then (check_url w c) (\<lambda>u.
     and_then (open_body w c) (\<lambda>reqBody.
     and_then (parse_auth c) (\<lambda>auth.
     add_headers (new_RequestParams c reqBody auth) (args c))))"

definition perform :: "world \<Rightarrow> cmdline \<Rightarrow> RequestParams \<Rightarrow> unit step" where
  "perform w c reqParams =
     and_then (build_request w c reqParams) (\<lambda>req.
     and_then (client_Do w reqParams req) (\<lambda>resp.
     deferred Closed_response_body (render w resp)))"

definition main :: "world \<Rightarrow> cmdline \<Rightarrow> event list \<times> ending" where
  "main w c = finish (and_then (prepare w c) (perform w c))"

subsection \<open>Reading a run\<close>

definition events :: "event list \<times> ending \<Rightarrow> event list" where
  "events run = fst run"

definition ending_of :: "event list \<times> ending \<Rightarrow> ending" where
  "ending_of run = snd run"

fun stdout_of :: "event list \<Rightarrow> string" where
  "stdout_of [] = []"
| "stdout_of (Stdout s # es) = s @ stdout_of es"
| "stdout_of (e # es) = stdout_of es"

text \<open>
  The bytes that the program itself writes to standard error, which is the usage text;
  the lines of the logger, with their time stamps, stay \<open>Log\<close> events.
\<close>

fun stderr_of :: "event list \<Rightarrow> string" where
  "stderr_of [] = []"
| "stderr_of (Stderr s # es) = s @ stderr_of es"
| "stderr_of (e # es) = stderr_of es"

definition is_print :: "event \<Rightarrow> bool" where
  "is_print e = (case e of Stdout s \<Rightarrow> True | Stderr s \<Rightarrow> True | _ \<Rightarrow> False)"

fun sent :: "event list \<Rightarrow> request list" where
  "sent [] = []"
| "sent (Sent r # es) = r # sent es"
| "sent (e # es) = sent es"

subsection \<open>A sample world\<close>

text \<open>
  A world to run \<open>main\<close> in. Its URL parser refuses the lone colon (\<open>url.Parse\<close> reports a
  missing protocol scheme), its file system holds the one file \<open>body.json\<close>, its
  \<open>http.NewRequest\<close> refuses a method with a space, its client follows a 302 response to the
  address of the \<open>Location\<close> header, and ten exchanges fit into the timeout.
\<close>

definition sample_redirect :: "request \<Rightarrow> response \<Rightarrow> request option" where
  "sample_redirect req resp =
     (if take 3 (Status resp) = ''302'' then
        (case map_of (resp_header resp) ''Location'' of
           Some (loc # locs) \<Rightarrow> Some (req\<lparr>req_url := loc\<rparr>)
         | _ \<Rightarrow> None)
      else None)"

text \<open>
  Its JSON decoder knows four documents: an object, an array, \<open>null\<close>, and the text
  \<open>not json\<close>, for which \<open>encoding/json\<close> reports the second byte.
\<close>

definition sample_decode :: "string \<Rightarrow> string + json" where
  \<open>sample_decode body =
     (if body = ''{"b":2,"a":1}'' then Inr (JObject [(''b'', JNumber ''2''), (''a'', JNumber ''1'')])
      else if body = ''[1,2]'' then Inr (JArray [JNumber ''1'', JNumber ''2''])
      else if body = ''null'' then Inr JNull
      else if body = ''not json''
        then Inl (''invalid character '' @ quoted ''o'' @ '' in literal null (expecting ''
                  @ quoted ''u'' @ '')'')
      else Inl ''unexpected end of JSON input'')\<close>

text \<open>
  Its encoder writes as \<open>json.MarshalIndent\<close> does for values whose strings need no escape:
  the keys of an object in sorted order, each member and element on a line of its own
  that starts with the prefix and one copy of the indent for each level of nesting.
\<close>

definition newline_indent :: "string \<Rightarrow> string \<Rightarrow> nat \<Rightarrow> string" where
  "newline_indent pre indent depth = nl @ pre @ concat (replicate depth indent)"

definition json_quote :: "string \<Rightarrow> string" where
  "json_quote s = [CHR 0x22] @ s @ [CHR 0x22]"

fun join :: "string \<Rightarrow> string list \<Rightarrow> string" where
  "join sep [] = []"
| "join sep [x] = x"
| "join sep (x # y # ys) = x @ sep @ join sep (y # ys)"

fun encode_indent :: "string \<Rightarrow> string \<Rightarrow> nat \<Rightarrow> json \<Rightarrow> string" where
  "encode_indent pre indent d JNull = ''null''"
| "encode_indent pre indent d (JBool b) = (if b then ''true'' else ''false'')"
| "encode_indent pre indent d (JNumber n) = n"
| "encode_indent pre indent d (JString s) = json_quote s"
| "encode_indent pre indent d (JArray vs) =
     (if vs = [] then ''[]''
      else ''['' @ newline_indent pre indent (Suc d)
           @ join ('','' @ newline_indent pre indent (Suc d))
               (map (encode_indent pre indent (Suc d)) vs)
           @ newline_indent pre indent d @ '']'')"
| "encode_indent pre indent d (JObject kvs) =
     (if kvs = [] then ''{}''
      else ''{'' @ newline_indent pre indent (Suc d)
           @ join ('','' @ newline_indent pre indent (Suc d))
               (map (\<lambda>kv. json_quote (fst kv) @ '': ''
                            @ encode_indent pre indent (Suc d) (snd kv))
                  (sort_key fst kvs))
           @ newline_indent pre indent d @ ''}'')"

definition sample_world :: "(request \<Rightarrow> string + response) \<Rightarrow> world" where
  "sample_world server =
     \<lparr>url_Parse = (\<lambda>u. if u = '':'' then Some ''missing protocol scheme'' else None),
      os_Open = (\<lambda>p. if p = ''body.json'' then None
                      else Some (''open '' @ p @ '': no such file or directory'')),
      http_NewRequest = (\<lambda>m u. if CHR '' '' \<in> set m then Some ''net/http: invalid method''
                               else None),
      RoundTrip = server,
      redirect = sample_redirect,
      exchanges_in_time = 10,
      json_decode = sample_decode,
      json_MarshalIndent = (\<lambda>v pre indent. Inr (encode_indent pre indent 0 v))\<rparr>"

text \<open>Servers: one that answers every request with 200 and a given body, \<dots>\<close>

definition answer_200 :: "string \<Rightarrow> response" where
  "answer_200 body =
     \<lparr>ProtoMajor = 1, ProtoMinor = 1, Status = ''200 OK'',
      resp_header = [(''Content-Type'', [''application/json''])], resp_body = Inr body\<rparr>"

definition serve_body :: "string \<Rightarrow> request \<Rightarrow> string + response" where
  "serve_body body req = Inr (answer_200 body)"

text \<open>\<dots> one where \<open>/old\<close> has moved to \<open>/new\<close>, \<dots>\<close>

definition answer_302 :: "string \<Rightarrow> response" where
  "answer_302 loc =
     \<lparr>ProtoMajor = 1, ProtoMinor = 1, Status = ''302 Found'',
      resp_header = [(''Location'', [loc])], resp_body = Inr []\<rparr>"

definition serve_moved :: "request \<Rightarrow> string + response" where
  \<open>serve_moved req =
     (if req_url req = ''http://a.test/old'' then Inr (answer_302 ''http://a.test/new'')
      else Inr (answer_200 ''{"b":2,"a":1}''))\<close>

text \<open>\<dots> and one whose body breaks off while it is read.\<close>

definition serve_broken :: "request \<Rightarrow> string + response" where
  "serve_broken req = Inr ((answer_200 [])\<lparr>resp_body := Inl ''unexpected EOF''\<rparr>)"

text \<open>The command line \<open>-url u\<close> with every other flag at its default.\<close>

definition just_url :: "string \<Rightarrow> cmdline" where
  "just_url u =
     \<lparr>urlStr = u, methodStr = ''GET'', reqBodyFile = [], followRedirects = False, authStr = [],
      args = []\<rparr>"

subsection \<open>Names for the parts of a run\<close>

text \<open>
  The command line passes the checks of lines 39 to 70: the URL is there and parses, the
  body file (if one is named) opens, the credentials (if given) hold a colon.
\<close>

definition validated :: "world \<Rightarrow> cmdline \<Rightarrow> bool" where
  "validated w c =
     (urlStr c \<noteq> [] \<and> url_Parse w (urlStr c) = None \<and>
      (reqBodyFile c = [] \<or> os_Open w (reqBodyFile c) = None) \<and>
      (authStr c = [] \<or> CHR '':'' \<in> set (authStr c)))"

text \<open>It also has no trailing argument, and \<open>http.NewRequest\<close> accepts method and URL.\<close>

definition ready :: "world \<Rightarrow> cmdline \<Rightarrow> bool" where
  "ready w c =
     (validated w c \<and> args c = [] \<and> http_NewRequest w (methodStr c) (urlStr c) = None)"

definition opened :: "cmdline \<Rightarrow> event list" where
  "opened c = (if reqBodyFile c = [] then [] else [Opened (reqBodyFile c)])"

definition closed_body :: "cmdline \<Rightarrow> event list" where
  "closed_body c = (if reqBodyFile c = [] then [] else [Closed (reqBodyFile c)])"

definition body_of :: "cmdline \<Rightarrow> string option" where
  "body_of c = (if reqBodyFile c = [] then None else Some (reqBodyFile c))"

definition credentials :: "cmdline \<Rightarrow> AuthParams option" where
  "credentials c =
     (if authStr c = [] then None
      else Some \<lparr>Username = takeWhile (\<lambda>x. x \<noteq> CHR '':'') (authStr c),
                 Password = tl (dropWhile (\<lambda>x. x \<noteq> CHR '':'') (authStr c))\<rparr>)"

definition params_of :: "cmdline \<Rightarrow> RequestParams" where
  "params_of c = new_RequestParams c (body_of c) (credentials c)"

text \<open>The request that a ready command line leads to, and its exchange.\<close>

definition request_of :: "cmdline \<Rightarrow> request" where
  "request_of c =
     \<lparr>req_method = (if methodStr c = [] then ''GET'' else methodStr c),
      req_url = urlStr c,
      req_header = (if authStr c = [] then []
                    else [(''Authorization'', [''Basic '' @ EncodeToString (authStr c)])]),
      req_body = body_of c\<rparr>"

definition exchange :: "world \<Rightarrow> cmdline \<Rightarrow> event list \<times> (string + response)" where
  "exchange w c =
     client_loop w (CheckRedirect (params_of c)) (exchanges_in_time w) (request_of c) []"

text \<open>What follows the arrival of a response: lines 122 to 155, and the deferred call.\<close>

definition rendered :: "world \<Rightarrow> response \<Rightarrow> event list \<times> ending" where
  "rendered w resp = finish (deferred Closed_response_body (render w resp))"

definition header_line :: "string \<times> string list \<Rightarrow> string" where
  "header_line kv = (case snd kv of [] \<Rightarrow> [] | v0 # vs \<Rightarrow> fst kv @ '': '' @ v0 @ nl)"

definition head_text :: "response \<Rightarrow> string" where
  "head_text resp = status_line resp @ concat (map header_line (resp_header resp)) @ nl"

definition has_values :: "Header \<Rightarrow> bool" where
  "has_values h = list_all (\<lambda>kv. snd kv \<noteq> []) h"

text \<open>
  \<open>follows w req hops final\<close>: from \<open>req\<close> on, each request of \<open>hops\<close> is answered by a
  redirect that leads to the next one, and the last redirect leads to \<open>final\<close>.
\<close>

fun follows :: "world \<Rightarrow> request \<Rightarrow> request list \<Rightarrow> request \<Rightarrow> bool" where
  "follows w req [] final = (req = final)"
| "follows w req (h # hs) final =
     (h = req \<and>
      (case RoundTrip w req of
         Inl err \<Rightarrow> False
       | Inr resp \<Rightarrow>
           (case redirect w req resp of
              None \<Rightarrow> False
            | Some next_req \<Rightarrow> follows w next_req hs final)))"

text \<open>The JSON values that \<open>json.Unmarshal\<close> stores into a \<open>map[string]interface{}\<close>.\<close>

fun is_object_or_null :: "json \<Rightarrow> bool" where
  "is_object_or_null (JObject kvs) = True"
| "is_object_or_null JNull = True"
| "is_object_or_null v = False"

section \<open>Properties\<close>

subsection \<open>Steps\<close>

lemma and_then_simps:
  "and_then (es, Inl t) f = (es, Inl t)"
  "and_then (es, Inr a) f = (es @ fst (f a), snd (f a))"
  "and_then (ok a) f = f a"
  "and_then (Fatalf m) f = Fatalf m"
  "and_then (panic m) f = panic m"
  by (simp_all add: and_then_def ok_def Fatalf_def panic_def split: prod.splits)

lemma split_at_colon:
  assumes "CHR '':'' \<in> set s"
  shows "SplitN_colon_2 s
           = [takeWhile (\<lambda>x. x \<noteq> CHR '':'') s, tl (dropWhile (\<lambda>x. x \<noteq> CHR '':'') s)]"
    and "takeWhile (\<lambda>x. x \<noteq> CHR '':'') s @ '':'' @ tl (dropWhile (\<lambda>x. x \<noteq> CHR '':'') s) = s"
proof -
  let ?rest = "dropWhile (\<lambda>x. x \<noteq> CHR '':'') s"
  show "SplitN_colon_2 s = [takeWhile (\<lambda>x. x \<noteq> CHR '':'') s, tl ?rest]"
    using assms by (simp add: SplitN_colon_2_def)
  from assms have ne: "?rest \<noteq> []"
    by (simp add: dropWhile_eq_Nil_conv)
  then have "hd ?rest = CHR '':''"
    using hd_dropWhile [of "\<lambda>x. x \<noteq> CHR '':''" s] by simp
  with ne have "?rest = CHR '':'' # tl ?rest"
    by (metis list.collapse)
  then have "takeWhile (\<lambda>x. x \<noteq> CHR '':'') s @ '':'' @ tl ?rest
               = takeWhile (\<lambda>x. x \<noteq> CHR '':'') s @ ?rest"
    by simp
  then show "takeWhile (\<lambda>x. x \<noteq> CHR '':'') s @ '':'' @ tl ?rest = s"
    by simp
qed

lemma split_no_colon: "CHR '':'' \<notin> set s \<Longrightarrow> SplitN_colon_2 s = [s]"
  by (simp add: SplitN_colon_2_def)

lemma add_headers_nil:
  "Headers rp = None \<Longrightarrow>
   add_headers rp (h # t) =
     (if CHR '':'' \<in> set h then panic ''assignment to entry in nil map''
      else Fatalf (''Error: Invalid header '' @ quoted h))"
  by (simp add: split_at_colon(1) split_no_colon Header_Set_def and_then_simps)

lemma Headers_params_of: "Headers (params_of c) = None"
  by (simp add: params_of_def new_RequestParams_def)

lemma prepare_validated:
  "validated w c \<Longrightarrow>
   prepare w c = (opened c @ fst (add_headers (params_of c) (args c)),
                  snd (add_headers (params_of c) (args c)))"
  by (auto simp add: validated_def prepare_def check_url_def open_body_def parse_auth_def
      and_then_simps opened_def params_of_def body_of_def credentials_def split_at_colon(1)
      ok_def)

lemma and_then_assoc: "and_then (and_then m f) g = and_then m (\<lambda>x. and_then (f x) g)"
proof -
  obtain es r where m: "m = (es, r)" by (cases m)
  show ?thesis
  proof (cases r)
    case (Inl t)
    with m show ?thesis by (simp add: and_then_simps)
  next
    case (Inr a)
    obtain es' r' where f: "f a = (es', r')" by (cases "f a")
    with m Inr show ?thesis
      by (cases r') (simp_all add: and_then_simps)
  qed
qed

subsection \<open>Runs that end before the exchange\<close>

lemma sent_append: "sent (xs @ ys) = sent xs @ sent ys"
  by (induction xs rule: sent.induct) simp_all

lemma sent_usage: "sent usage = []"
  by code_simp

lemma sent_opened: "sent (opened c) = []"
  by (simp add: opened_def)

lemma sent_closed_body: "sent (closed_body c) = []"
  by (simp add: closed_body_def)

lemma prepare_not_validated:
  "\<not> validated w c \<Longrightarrow>
   snd (prepare w c) = Inl (Exited 1) \<and> sent (fst (prepare w c)) = []"
  by (auto simp add: validated_def prepare_def check_url_def open_body_def parse_auth_def
      and_then_simps sent_usage split_no_colon Fatalf_def ok_def split: option.splits)

lemma canonical_Authorization: "CanonicalMIMEHeaderKey ''Authorization'' = ''Authorization''"
  by code_simp

lemma build_request_params_of:
  "authStr c = [] \<or> CHR '':'' \<in> set (authStr c) \<Longrightarrow>
   build_request w c (params_of c) =
     (case http_NewRequest w (methodStr c) (urlStr c) of
        Some err \<Rightarrow> Fatalf (''Error creating request object: '' @ err)
      | None \<Rightarrow> ok (request_of c))"
  using split_at_colon(2) [of "authStr c"]
  by (auto simp add: build_request_def params_of_def new_RequestParams_def and_then_simps
      add_auth_def credentials_def Header_Set_def canonical_Authorization request_of_def
      split: option.splits)

lemma client_Do_exchange:
  "client_Do w (params_of c) (request_of c) =
     (case snd (exchange w c) of
        Inl err \<Rightarrow> (fst (exchange w c) @ closed_body c
                     @ [Log (''Error making request: '' @ err)], Inl (Exited 1))
      | Inr resp \<Rightarrow> (fst (exchange w c) @ closed_body c, Inr resp))"
proof -
  obtain xs r where
    x: "client_loop w (CheckRedirect (params_of c)) (exchanges_in_time w) (request_of c) []
          = (xs, r)"
    by (cases "client_loop w (CheckRedirect (params_of c)) (exchanges_in_time w)
                 (request_of c) []")
  have b: "(case req_body (request_of c) of None \<Rightarrow> [] | Some f \<Rightarrow> [Closed f]) = closed_body c"
    by (simp add: request_of_def body_of_def closed_body_def)
  show ?thesis
    unfolding client_Do_def exchange_def x b
    by (cases r) (simp_all add: and_then_simps Fatalf_def ok_def)
qed

lemma main_ready:
  "ready w c \<Longrightarrow>
   main w c =
     (case snd (exchange w c) of
        Inl err \<Rightarrow> (opened c @ fst (exchange w c) @ closed_body c
                     @ [Log (''Error making request: '' @ err)], Exited 1)
      | Inr resp \<Rightarrow> (opened c @ fst (exchange w c) @ closed_body c @ fst (rendered w resp),
                     snd (rendered w resp)))"
  by (auto simp add: ready_def main_def prepare_validated perform_def and_then_simps
      build_request_params_of client_Do_exchange validated_def finish_def rendered_def ok_def
      split: sum.splits prod.splits)

lemma main_not_ready:
  "\<not> ready w c \<Longrightarrow>
   sent (events (main w c)) = [] \<and>
   (ending_of (main w c) = Exited 1 \<or>
    ending_of (main w c) = Panicked ''assignment to entry in nil map'')"
proof (cases "validated w c")
  case False
  assume "\<not> ready w c"
  obtain es r where p: "prepare w c = (es, r)" by (cases "prepare w c")
  with prepare_not_validated [OF False] have "r = Inl (Exited 1)" "sent es = []" by simp_all
  with p show ?thesis
    by (simp add: main_def and_then_simps finish_def events_def ending_of_def)
next
  case True
  assume nr: "\<not> ready w c"
  show ?thesis
  proof (cases "args c")
    case Nil
    with nr True obtain err where "http_NewRequest w (methodStr c) (urlStr c) = Some err"
      by (auto simp add: ready_def)
    with True Nil show ?thesis
      by (auto simp add: main_def prepare_validated perform_def and_then_simps
          build_request_params_of validated_def finish_def ok_def Fatalf_def events_def
          ending_of_def sent_append sent_opened)
  next
    case (Cons h t)
    have "add_headers (params_of c) (args c) =
            (if CHR '':'' \<in> set h then panic ''assignment to entry in nil map''
             else Fatalf (''Error: Invalid header '' @ quoted h))"
      unfolding Cons by (rule add_headers_nil [OF Headers_params_of])
    with True show ?thesis
      by (simp add: main_def prepare_validated and_then_simps finish_def panic_def Fatalf_def
          events_def ending_of_def sent_append sent_opened)
  qed
qed

subsection \<open>The renderer\<close>

lemma print_headers_ok:
  "has_values h \<Longrightarrow> print_headers h = (map (\<lambda>kv. Stdout (header_line kv)) h, Inr ())"
  by (induction h rule: print_headers.induct)
     (simp_all add: has_values_def header_line_def and_then_simps ok_def split: list.splits)

lemma stdout_header_lines:
  "stdout_of (map (\<lambda>kv. Stdout (header_line kv)) h) = concat (map header_line h)"
  by (induction h) simp_all

lemma stdout_append: "stdout_of (xs @ ys) = stdout_of xs @ stdout_of ys"
  by (induction xs rule: stdout_of.induct) simp_all

lemma sent_header_lines: "sent (map (\<lambda>kv. Stdout (header_line kv)) h) = []"
  by (induction h) simp_all

lemma rendered_has_values:
  "has_values (resp_header resp) \<Longrightarrow>
   rendered w resp =
     (case resp_body resp of
        Inl err \<Rightarrow>
          (Stdout (status_line resp) # map (\<lambda>kv. Stdout (header_line kv)) (resp_header resp)
             @ [Stdout nl, Log (''Error reading response body: '' @ err)], Exited 1)
      | Inr body \<Rightarrow>
          (Stdout (status_line resp) # map (\<lambda>kv. Stdout (header_line kv)) (resp_header resp)
             @ [Stdout nl] @ fst (print_body w resp) @ [Closed_response_body], Returned))"
proof -
  assume h: "has_values (resp_header resp)"
  show ?thesis
  proof (cases "resp_body resp")
    case (Inl err)
    then have "print_body w resp = ([Log (''Error reading response body: '' @ err)], Inl (Exited 1))"
      by (simp add: print_body_def Fatalf_def)
    with h Inl show ?thesis
      by (simp add: rendered_def render_def print_headers_ok and_then_simps deferred_def
          finish_def)
  next
    case (Inr body)
    then have "snd (print_body w resp) = Inr ()"
      by (simp add: print_body_def split: sum.splits)
    with h Inr show ?thesis
      by (simp add: rendered_def render_def print_headers_ok and_then_simps deferred_def
          finish_def)
  qed
qed

lemma print_headers_quiet: "sent (fst (print_headers h)) = []"
proof (induction h rule: print_headers.induct)
  case 1
  show ?case by (simp add: ok_def)
next
  case (2 k v rest)
  show ?case
  proof (cases v)
    case Nil
    then show ?thesis by (simp add: panic_def)
  next
    case (Cons v0 vs)
    with 2 show ?thesis by (simp add: and_then_simps)
  qed
qed

lemma print_body_quiet: "sent (fst (print_body w resp)) = []"
  by (simp add: print_body_def Fatalf_def split: sum.splits)

lemma sent_and_then:
  "sent (fst (and_then m f)) =
     sent (fst m) @ (case snd m of Inl t \<Rightarrow> [] | Inr a \<Rightarrow> sent (fst (f a)))"
  by (cases m; cases "snd m") (auto simp add: and_then_simps sent_append)

lemma sent_deferred: "sent (fst (deferred Closed_response_body m)) = sent (fst m)"
proof -
  obtain es r where m: "m = (es, r)" by (cases m)
  show ?thesis
    unfolding m by (cases r; cases "projl r") (simp_all add: deferred_def sent_append)
qed

lemma fst_finish: "fst (finish m) = fst m"
  by (simp add: finish_def split: prod.splits sum.splits)

lemma rendered_quiet: "sent (fst (rendered w resp)) = []"
  by (simp add: rendered_def fst_finish sent_deferred render_def sent_and_then
      print_headers_quiet print_body_quiet split: sum.splits)

subsection \<open>The client\<close>

lemma CheckRedirect_params_of:
  "CheckRedirect (params_of c) =
     (\<lambda>req via. if followRedirects c then None else Some ErrUseLastResponse)"
  by (rule ext, rule ext) (simp add: CheckRedirect_def params_of_def new_RequestParams_def)

lemma client_loop_stdout: "stdout_of (fst (client_loop w check n req via)) = []"
proof (induction w check n req via rule: client_loop.induct)
  case (1 w check req via)
  show ?case by simp
next
  case (2 w check n req via)
  show ?case
  proof (cases "RoundTrip w req")
    case (Inl err)
    then show ?thesis by simp
  next
    case (Inr resp)
    show ?thesis
    proof (cases "redirect w req resp")
      case None
      with Inr show ?thesis by simp
    next
      case (Some nxt)
      show ?thesis
      proof (cases "check nxt (via @ [req])")
        case None
        obtain es r where cl: "client_loop w check n nxt (via @ [req]) = (es, r)"
          by (cases "client_loop w check n nxt (via @ [req])")
        from "2.IH" [OF Inr Some None] cl have "stdout_of es = []" by simp
        with Inr Some None cl show ?thesis by simp
      next
        case (Some e)
        with Inr \<open>redirect w req resp = Some nxt\<close> show ?thesis
          by (cases e) simp_all
      qed
    qed
  qed
qed

lemma client_loop_first:
  "(case sent (fst (client_loop w check n req via)) of [] \<Rightarrow> True | r # rs \<Rightarrow> r = req)"
  by (cases n)
     (simp_all split: sum.splits option.splits redirect_error.splits prod.splits)

lemma client_loop_sends:
  "0 < n \<Longrightarrow> sent (fst (client_loop w check n req via)) \<noteq> []"
  by (cases n)
     (simp_all split: sum.splits option.splits redirect_error.splits prod.splits)

lemma client_loop_stops:
  "RoundTrip w req = Inr resp \<Longrightarrow> redirect w req resp = Some next_req \<Longrightarrow>
   client_loop w (\<lambda>r v. Some ErrUseLastResponse) (Suc n) req via = ([Sent req], Inr resp)"
  by simp

lemma client_loop_follows:
  "follows w req hops final \<Longrightarrow> RoundTrip w final = Inr resp \<Longrightarrow>
   redirect w final resp = None \<Longrightarrow> length hops < n \<Longrightarrow>
   client_loop w (\<lambda>r v. None) n req via = (map Sent (hops @ [final]), Inr resp)"
proof (induction hops arbitrary: req n via)
  case Nil
  then obtain m where "n = Suc m" by (cases n) simp_all
  with Nil show ?case by simp
next
  case (Cons h hs)
  from Cons.prems(4) obtain m where n: "n = Suc m" and m: "length hs < m"
    by (cases n) simp_all
  from Cons.prems(1) obtain r1 nxt where
    h: "h = req" and rt: "RoundTrip w req = Inr r1" and rd: "redirect w req r1 = Some nxt"
    and rest: "follows w nxt hs final"
    by (auto split: sum.splits option.splits)
  from Cons.IH [OF rest Cons.prems(2) Cons.prems(3) m]
  have "client_loop w (\<lambda>r v. None) m nxt (via @ [req]) = (map Sent (hs @ [final]), Inr resp)" .
  with n h rt rd show ?case by simp
qed

subsection \<open>Whole runs\<close>

lemma stdout_opened: "stdout_of (opened c) = []"
  by (simp add: opened_def)

lemma stdout_closed_body: "stdout_of (closed_body c) = []"
  by (simp add: closed_body_def)

lemma main_sent: "sent (events (main w c)) = (if ready w c then sent (fst (exchange w c)) else [])"
proof (cases "ready w c")
  case False
  with main_not_ready [OF False] show ?thesis by simp
next
  case True
  show ?thesis
    unfolding main_ready [OF True] events_def
    using True
    by (cases "snd (exchange w c)")
       (simp_all add: sent_append sent_opened sent_closed_body rendered_quiet)
qed

lemma main_first_sent:
  "(case sent (events (main w c)) of [] \<Rightarrow> True | r # rs \<Rightarrow> r = request_of c)"
  unfolding main_sent exchange_def using client_loop_first by simp

lemma main_sends: "ready w c \<Longrightarrow> 0 < exchanges_in_time w \<Longrightarrow> sent (events (main w c)) \<noteq> []"
  unfolding main_sent exchange_def using client_loop_sends by simp

lemma main_received:
  assumes "ready w c" and "snd (exchange w c) = Inr resp" and "has_values (resp_header resp)"
  shows "stdout_of (events (main w c)) = head_text resp @ stdout_of (fst (print_body w resp))"
    and "ending_of (main w c) = (case resp_body resp of Inl err \<Rightarrow> Exited 1 | Inr body \<Rightarrow> Returned)"
    and "events (main w c) =
           opened c @ fst (exchange w c) @ closed_body c @ fst (rendered w resp)"
proof -
  have x: "stdout_of (fst (exchange w c)) = []"
    by (simp add: exchange_def client_loop_stdout)
  have run: "main w c = (opened c @ fst (exchange w c) @ closed_body c @ fst (rendered w resp),
                         snd (rendered w resp))"
    using assms(2) by (simp add: main_ready [OF assms(1)])
  show "events (main w c) = opened c @ fst (exchange w c) @ closed_body c @ fst (rendered w resp)"
    by (simp add: run events_def)
  show "ending_of (main w c) = (case resp_body resp of Inl err \<Rightarrow> Exited 1 | Inr body \<Rightarrow> Returned)"
    by (simp add: run ending_of_def rendered_has_values [OF assms(3)] split: sum.splits)
  have "stdout_of (fst (rendered w resp)) = head_text resp @ stdout_of (fst (print_body w resp))"
    by (cases "resp_body resp")
       (simp_all add: rendered_has_values [OF assms(3)] stdout_append stdout_header_lines
          head_text_def print_body_def Fatalf_def)
  then show "stdout_of (events (main w c)) = head_text resp @ stdout_of (fst (print_body w resp))"
    by (simp add: run events_def stdout_append stdout_opened stdout_closed_body x)
qed

subsection \<open>The usage exit\<close>

lemma usage_prints_only: "list_all is_print usage"
  by code_simp

lemma usage_names_flags: "list_all (\<lambda>f. sublist (''-'' @ Name f) (stderr_of usage)) flags"
  by code_simp

lemma usage_stdout: "stdout_of usage = ''Usage: httpreq -url <url> [options]'' @ nl @ ''Options:'' @ nl"
  by code_simp

text \<open>
  C10. When \<open>-url\<close> is missing (empty), the run is the usage text and nothing else, whatever
  the world and the other flags are: the two lines on standard output, the defaults of
  \<open>flag.PrintDefaults\<close> on standard error, where every flag name stands with its dash; the
  process exits with status 1. No event of the run is a log message, an opened file or a
  request.
\<close>

theorem missing_url_usage_exit_1:
  "urlStr c = [] \<Longrightarrow>
     main w c = (usage, Exited 1) \<and>
     exit_status (ending_of (main w c)) = 1 \<and>
     stdout_of (events (main w c))
       = ''Usage: httpreq -url <url> [options]'' @ nl @ ''Options:'' @ nl \<and>
     list_all (\<lambda>f. sublist (''-'' @ Name f) (stderr_of (events (main w c)))) flags \<and>
     list_all is_print (events (main w c)) \<and>
     sent (events (main w c)) = []"
proof -
  assume "urlStr c = []"
  then have run: "main w c = (usage, Exited 1)"
    by (simp add: main_def prepare_def check_url_def and_then_def finish_def)
  have no_request: "sent usage = []"
    by code_simp
  have status: "exit_status (Exited 1) = 1"
    by simp
  show ?thesis
    unfolding run events_def ending_of_def fst_conv snd_conv
    by (intro conjI)
       (rule refl, rule status, rule usage_stdout, rule usage_names_flags,
        rule usage_prints_only, rule no_request)
qed

theorem missing_url_usage_exit_1_witness:
  "main (sample_world (serve_body ''null'')) ((just_url [])\<lparr>args := [''Accept: */*'']\<rparr>)
     = (usage, Exited 1) \<and>
   map Name flags = [''url'', ''method'', ''file'', ''follow'', ''auth''] \<and>
   list_all (\<lambda>f. sublist (''-'' @ Name f)
       (stderr_of (events (main (sample_world (serve_body ''null''))
                             ((just_url [])\<lparr>args := [''Accept: */*'']\<rparr>))))) flags"
proof -
  have no_url: "urlStr ((just_url [])\<lparr>args := [''Accept: */*'']\<rparr>) = []"
    by (simp add: just_url_def)
  note run = missing_url_usage_exit_1 [OF no_url, of "sample_world (serve_body ''null'')"]
  have names: "map Name flags = [''url'', ''method'', ''file'', ''follow'', ''auth'']"
    by (simp add: flags_def)
  show ?thesis
    by (intro conjI)
       (rule run [THEN conjunct1], rule names,
        rule run [THEN conjunct2, THEN conjunct2, THEN conjunct2, THEN conjunct1])
qed

subsection \<open>The URL\<close>

text \<open>
  C8. Let \<open>-url\<close> be non-empty. If \<open>url.Parse\<close> returns an error, the run is the one log
  message about the invalid URL and exit status 1: nothing is opened, built or sent. If
  it returns none, the check writes nothing and ends nothing, and the run is that of the
  steps that follow it (lines 52 to 155); when the rest of the command line is in order
  and there is time for an exchange, the first request on the wire is the one for this
  URL.
\<close>

theorem url_checked_before_request:
  "urlStr c \<noteq> [] \<Longrightarrow>
     (url_Parse w (urlStr c) = Some err \<longrightarrow>
        main w c
          = ([Log (''Error: Invalid URL '' @ quoted (urlStr c) @ '': '' @ err)], Exited 1) \<and>
        sent (events (main w c)) = []) \<and>
     (url_Parse w (urlStr c) = None \<longrightarrow>
        check_url w c = ok () \<and>
        main w c
          = finish
              (and_then (open_body w c) (\<lambda>reqBody.
               and_then (parse_auth c) (\<lambda>auth.
               and_then (add_headers (new_RequestParams c reqBody auth) (args c))
                 (perform w c)))) \<and>
        (ready w c \<and> 0 < exchanges_in_time w \<longrightarrow>
           sent (events (main w c)) \<noteq> [] \<and>
           hd (sent (events (main w c))) = request_of c \<and>
           req_url (request_of c) = urlStr c))"
proof (intro conjI impI)
  assume url: "urlStr c \<noteq> []"
  {
    assume bad: "url_Parse w (urlStr c) = Some err"
    with url show
      run: "main w c
              = ([Log (''Error: Invalid URL '' @ quoted (urlStr c) @ '': '' @ err)], Exited 1)"
      by (simp add: main_def prepare_def check_url_def and_then_simps Fatalf_def finish_def)
    then show "sent (events (main w c)) = []"
      by (simp add: events_def)
  }
  {
    assume good: "url_Parse w (urlStr c) = None"
    with url show chk: "check_url w c = ok ()"
      by (simp add: check_url_def)
    then show "main w c
          = finish
              (and_then (open_body w c) (\<lambda>reqBody.
               and_then (parse_auth c) (\<lambda>auth.
               and_then (add_headers (new_RequestParams c reqBody auth) (args c))
                 (perform w c))))"
      by (simp add: main_def prepare_def and_then_simps(3) and_then_assoc)
    {
      assume r: "ready w c \<and> 0 < exchanges_in_time w"
      then show ne: "sent (events (main w c)) \<noteq> []"
        by (simp add: main_sends)
      with main_first_sent [where w = w and c = c]
      show "hd (sent (events (main w c))) = request_of c"
        by (cases "sent (events (main w c))") simp_all
      show "req_url (request_of c) = urlStr c"
        by (simp add: request_of_def)
    }
  }
qed

theorem url_checked_before_request_witness:
  "main (sample_world (serve_body ''null'')) (just_url '':'')
     = ([Log (''Error: Invalid URL '' @ quoted '':'' @ '': missing protocol scheme'')], Exited 1) \<and>
   req_url (hd (sent (events (main (sample_world (serve_body ''null''))
                                (just_url ''http://a.test/''))))) = ''http://a.test/''"
proof -
  let ?w = "sample_world (serve_body ''null'')"
  have "urlStr (just_url '':'') \<noteq> []"
    by (simp add: just_url_def)
  from url_checked_before_request
         [OF this, where w = ?w and err = "''missing protocol scheme''", THEN conjunct1]
  have bad: "main ?w (just_url '':'')
     = ([Log (''Error: Invalid URL '' @ quoted '':'' @ '': missing protocol scheme'')], Exited 1)"
    by (simp add: sample_world_def just_url_def)
  let ?c = "just_url ''http://a.test/''"
  have url: "urlStr ?c \<noteq> []"
    by (simp add: just_url_def)
  have parses: "url_Parse ?w (urlStr ?c) = None"
    by (simp add: sample_world_def just_url_def)
  have r: "ready ?w ?c \<and> 0 < exchanges_in_time ?w"
    by (simp add: sample_world_def just_url_def ready_def validated_def)
  note t = url_checked_before_request
             [OF url, where w = ?w, THEN conjunct2, rule_format, OF parses]
  from t r have "hd (sent (events (main ?w ?c))) = request_of ?c"
    by blast
  then have good: "req_url (hd (sent (events (main ?w ?c)))) = ''http://a.test/''"
    by (simp add: request_of_def just_url_def)
  from bad good show ?thesis
    by (intro conjI)
qed

subsection \<open>Basic authentication\<close>

lemma parse_auth_colon:
  "CHR '':'' \<notin> set u \<Longrightarrow> authStr c = u @ '':'' @ p \<Longrightarrow>
   parse_auth c = ok (Some \<lparr>Username = u, Password = p\<rparr>)"
proof -
  assume u: "CHR '':'' \<notin> set u" and a: "authStr c = u @ '':'' @ p"
  from u have "takeWhile (\<lambda>x. x \<noteq> CHR '':'') (u @ '':'' @ p) = u"
    by (induction u) auto
  moreover from u have "dropWhile (\<lambda>x. x \<noteq> CHR '':'') (u @ '':'' @ p) = '':'' @ p"
    by (induction u) auto
  ultimately have "SplitN_colon_2 (authStr c) = [u, p]"
    by (simp add: a SplitN_colon_2_def)
  with a show ?thesis
    by (simp add: parse_auth_def)
qed

lemma main_no_colon_auth:
  assumes "authStr c \<noteq> []" and "CHR '':'' \<notin> set (authStr c)"
  shows "sent (events (main w c)) = []" and "ending_of (main w c) = Exited 1"
proof -
  from assms have nv: "\<not> validated w c"
    by (simp add: validated_def)
  then have nr: "\<not> ready w c"
    by (simp add: ready_def)
  from main_not_ready [OF nr] show "sent (events (main w c)) = []"
    by simp
  obtain es r where p: "prepare w c = (es, r)"
    by (cases "prepare w c")
  with prepare_not_validated [OF nv] have "r = Inl (Exited 1)"
    by simp
  with p show "ending_of (main w c) = Exited 1"
    by (simp add: main_def and_then_simps finish_def ending_of_def)
qed

lemma main_no_colon_auth_events:
  assumes "authStr c \<noteq> []" and "CHR '':'' \<notin> set (authStr c)"
    and "urlStr c \<noteq> []" and "url_Parse w (urlStr c) = None"
    and "reqBodyFile c = [] \<or> os_Open w (reqBodyFile c) = None"
  shows "main w c
           = (opened c @ [Log (''Error: Invalid auth credentials '' @ quoted (authStr c))],
              Exited 1)"
  using assms
  by (auto simp add: main_def prepare_def check_url_def open_body_def parse_auth_def
      split_no_colon and_then_simps ok_def Fatalf_def finish_def opened_def)

text \<open>
  C5. Let the value of \<open>-auth\<close> be \<open>u:p\<close>, cut at its first colon. Then the credentials are
  \<open>u\<close> and \<open>p\<close>, and the request that the program hands to the client, if it hands one,
  carries the header \<open>Authorization\<close> with the one value \<open>Basic\<close> followed by the base64
  text of \<open>u:p\<close>; it does hand one when the command line is ready and there is time for
  an exchange. (The requests that follow a redirect are made by the client, not by
  \<open>main\<close>.) Let the value be non-empty without a colon. Then the process exits with
  status 1 and sends no request; when the URL and the body file were in order, the last
  thing it does is to log the invalid credentials.
\<close>

theorem basic_auth_header_or_fatal:
  "(authStr c = u @ '':'' @ p \<and> CHR '':'' \<notin> set u \<longrightarrow>
      parse_auth c = ok (Some \<lparr>Username = u, Password = p\<rparr>) \<and>
      (case sent (events (main w c)) of
         [] \<Rightarrow> True
       | r # rs \<Rightarrow>
           map_of (req_header r) ''Authorization''
             = Some [''Basic '' @ EncodeToString (u @ '':'' @ p)]) \<and>
      (ready w c \<and> 0 < exchanges_in_time w \<longrightarrow> sent (events (main w c)) \<noteq> [])) \<and>
   (authStr c \<noteq> [] \<and> CHR '':'' \<notin> set (authStr c) \<longrightarrow>
      sent (events (main w c)) = [] \<and>
      ending_of (main w c) = Exited 1 \<and>
      (urlStr c \<noteq> [] \<and> url_Parse w (urlStr c) = None \<and>
       (reqBodyFile c = [] \<or> os_Open w (reqBodyFile c) = None) \<longrightarrow>
         main w c
           = (opened c @ [Log (''Error: Invalid auth credentials '' @ quoted (authStr c))],
              Exited 1)))"
proof (intro conjI impI)
  assume a: "authStr c = u @ '':'' @ p \<and> CHR '':'' \<notin> set u"
  then show "parse_auth c = ok (Some \<lparr>Username = u, Password = p\<rparr>)"
    by (simp add: parse_auth_colon)
  from a have hdr: "map_of (req_header (request_of c)) ''Authorization''
                      = Some [''Basic '' @ EncodeToString (u @ '':'' @ p)]"
    by (simp add: request_of_def)
  from main_first_sent [where w = w and c = c] hdr
  show "case sent (events (main w c)) of
          [] \<Rightarrow> True
        | r # rs \<Rightarrow>
            map_of (req_header r) ''Authorization''
              = Some [''Basic '' @ EncodeToString (u @ '':'' @ p)]"
    by (cases "sent (events (main w c))") simp_all
next
  assume "authStr c = u @ '':'' @ p \<and> CHR '':'' \<notin> set u"
    and "ready w c \<and> 0 < exchanges_in_time w"
  then show "sent (events (main w c)) \<noteq> []"
    by (simp add: main_sends)
next
  assume "authStr c \<noteq> [] \<and> CHR '':'' \<notin> set (authStr c)"
  then show "sent (events (main w c)) = []" and "ending_of (main w c) = Exited 1"
    by (simp_all add: main_no_colon_auth)
next
  assume "authStr c \<noteq> [] \<and> CHR '':'' \<notin> set (authStr c)"
    and "urlStr c \<noteq> [] \<and> url_Parse w (urlStr c) = None \<and>
         (reqBodyFile c = [] \<or> os_Open w (reqBodyFile c) = None)"
  then show "main w c
           = (opened c @ [Log (''Error: Invalid auth credentials '' @ quoted (authStr c))],
              Exited 1)"
    by (simp add: main_no_colon_auth_events)
qed


theorem basic_auth_header_or_fatal_witness:
  "sent (events (main (sample_world serve_moved)
                   ((just_url ''http://a.test/old'')\<lparr>authStr := ''u:p''\<rparr>))) \<noteq> [] \<and>
   map_of (req_header (hd (sent (events (main (sample_world serve_moved)
                   ((just_url ''http://a.test/old'')\<lparr>authStr := ''u:p''\<rparr>))))))
      ''Authorization'' = Some [''Basic dTpw''] \<and>
   main (sample_world serve_moved) ((just_url ''http://a.test/old'')\<lparr>authStr := ''up''\<rparr>)
     = ([Log (''Error: Invalid auth credentials '' @ quoted ''up'')], Exited 1)"
proof -
  let ?w = "sample_world serve_moved"
  let ?c = "(just_url ''http://a.test/old'')\<lparr>authStr := ''u:p''\<rparr>"
  let ?d = "(just_url ''http://a.test/old'')\<lparr>authStr := ''up''\<rparr>"
  have a: "authStr ?c = ''u'' @ '':'' @ ''p'' \<and> CHR '':'' \<notin> set ''u''"
    by (simp add: just_url_def)
  have r: "ready ?w ?c \<and> 0 < exchanges_in_time ?w"
    by (simp add: ready_def validated_def sample_world_def just_url_def)
  note t = basic_auth_header_or_fatal
             [where c = ?c and u = "''u''" and p = "''p''" and w = ?w, THEN conjunct1,
              rule_format, OF a]
  from t r have s: "sent (events (main ?w ?c)) \<noteq> []"
    by blast
  have e: "EncodeToString (''u'' @ '':'' @ ''p'') = ''dTpw''"
    by code_simp
  from t s e
  have h: "map_of (req_header (hd (sent (events (main ?w ?c))))) ''Authorization''
             = Some [''Basic dTpw'']"
    by (cases "sent (events (main ?w ?c))") simp_all
  have b: "authStr ?d \<noteq> [] \<and> CHR '':'' \<notin> set (authStr ?d)"
    by (simp add: just_url_def)
  have v: "urlStr ?d \<noteq> [] \<and> url_Parse ?w (urlStr ?d) = None \<and>
           (reqBodyFile ?d = [] \<or> os_Open ?w (reqBodyFile ?d) = None)"
    by (simp add: sample_world_def just_url_def)
  note f = basic_auth_header_or_fatal
             [where c = ?d and w = ?w, THEN conjunct2, rule_format, OF b]
  from f v have "main ?w ?d
           = (opened ?d @ [Log (''Error: Invalid auth credentials '' @ quoted (authStr ?d))],
              Exited 1)"
    by blast
  then have m: "main ?w ?d = ([Log (''Error: Invalid auth credentials '' @ quoted ''up'')], Exited 1)"
    by (simp add: opened_def just_url_def)
  from s h m show ?thesis
    by (intro conjI)
qed

subsection \<open>The header arguments\<close>

lemma main_first_header:
  assumes "validated w c" and "args c = h # rest"
  shows "main w c =
           (if CHR '':'' \<in> set h then (opened c, Panicked ''assignment to entry in nil map'')
            else (opened c @ [Log (''Error: Invalid header '' @ quoted h)], Exited 1))"
proof -
  have "add_headers (params_of c) (args c) =
          (if CHR '':'' \<in> set h then panic ''assignment to entry in nil map''
           else Fatalf (''Error: Invalid header '' @ quoted h))"
    unfolding assms(2) by (rule add_headers_nil [OF Headers_params_of])
  then show ?thesis
    by (simp add: main_def prepare_validated [OF assms(1)] and_then_simps finish_def panic_def
        Fatalf_def)
qed

lemma main_with_args:
  assumes "args c \<noteq> []"
  shows "sent (events (main w c)) = []" and "ending_of (main w c) \<noteq> Returned"
proof -
  from assms have "\<not> ready w c"
    by (simp add: ready_def)
  from main_not_ready [OF this]
  show "sent (events (main w c)) = []" and "ending_of (main w c) \<noteq> Returned"
    by auto
qed

text \<open>
  C2, as amended. The composite literal of lines 72 to 77 leaves \<open>Headers\<close> the nil map.
  When the command line passes the checks before the loop (a URL that is there and
  parses, a body file that opens if one is named, credentials with a colon if some are
  given) and its first trailing argument holds a colon, the run ends in the panic of the
  assignment to an entry of a nil map, with no log message and no request. With any
  trailing argument at all, no request is sent and \<open>main\<close> does not return.
\<close>

theorem first_header_write_panics:
  "Headers (new_RequestParams c reqBody auth) = None \<and>
   (validated w c \<and> args c = h # rest \<and> CHR '':'' \<in> set h \<longrightarrow>
      main w c = (opened c, Panicked ''assignment to entry in nil map'')) \<and>
   (args c \<noteq> [] \<longrightarrow>
      sent (events (main w c)) = [] \<and> ending_of (main w c) \<noteq> Returned)"
  by (simp add: new_RequestParams_def main_first_header main_with_args)

theorem first_header_write_panics_witness:
  "main (sample_world (serve_body ''null''))
     ((just_url ''http://a.test/'')\<lparr>reqBodyFile := ''body.json'',
         args := [''Accept: */*'', ''bad'']\<rparr>)
     = ([Opened ''body.json''], Panicked ''assignment to entry in nil map'') \<and>
   sent (events (main (sample_world (serve_body ''null''))
     ((just_url ''http://a.test/'')\<lparr>reqBodyFile := ''body.json'',
         args := [''Accept: */*'', ''bad'']\<rparr>))) = []"
proof -
  let ?w = "sample_world (serve_body ''null'')"
  let ?c = "(just_url ''http://a.test/'')\<lparr>reqBodyFile := ''body.json'',
              args := [''Accept: */*'', ''bad'']\<rparr>"
  have h: "validated ?w ?c \<and> args ?c = ''Accept: */*'' # [''bad''] \<and>
           CHR '':'' \<in> set ''Accept: */*''"
    by (simp add: validated_def sample_world_def just_url_def)
  note t = first_header_write_panics
             [where w = ?w and c = ?c and h = "''Accept: */*''" and rest = "[''bad'']"]
  from t [THEN conjunct2, THEN conjunct1, rule_format, OF h]
  have run: "main ?w ?c = ([Opened ''body.json''], Panicked ''assignment to entry in nil map'')"
    by (simp add: opened_def just_url_def)
  have "args ?c \<noteq> []"
    by simp
  from t [THEN conjunct2, THEN conjunct2, rule_format, OF this]
  have none: "sent (events (main ?w ?c)) = []"
    by (rule conjunct1)
  from run none show ?thesis
    by (intro conjI)
qed

text \<open>
  C2 as it was stated fails: a well-formed header argument after a malformed one is never
  reached, the run ends in the fatal log message for the malformed one; and with the URL
  missing the run is the usage exit.
\<close>

theorem well_formed_header_without_panic:
  "CHR '':'' \<in> set ''A: b'' \<and>
   main (sample_world (serve_body ''null''))
     ((just_url ''http://a.test/'')\<lparr>args := [''bad'', ''A: b'']\<rparr>)
     = ([Log (''Error: Invalid header '' @ quoted ''bad'')], Exited 1) \<and>
   main (sample_world (serve_body ''null'')) ((just_url [])\<lparr>args := [''A: b'']\<rparr>)
     = (usage, Exited 1)"
  by code_simp

text \<open>
  C1, on the code. The run with the URL \<open>http://a.test/\<close> and the one trailing argument
  \<open>X-Token:  abc \<close>: the argument splits at its colon, and \<open>Set\<close> on the nil map of
  line 86 panics. Nothing is logged, no request is built and none is sent, so no header
  reaches the wire.
\<close>

theorem header_argument_run:
  "main (sample_world (serve_body ''null''))
     ((just_url ''http://a.test/'')\<lparr>args := [''X-Token:  abc '']\<rparr>)
     = ([], Panicked ''assignment to entry in nil map'')"
  by code_simp

text \<open>
  C6, on the code. The run with \<open>-auth u:p\<close> and the trailing argument
  \<open>Authorization: Bearer t\<close>: the credentials parse, then the same panic at line 86 ends
  the process before lines 95 to 104 set any header of a request.
\<close>

theorem authorization_argument_run:
  "main (sample_world (serve_body ''null''))
     ((just_url ''http://a.test/'')\<lparr>authStr := ''u:p'',
         args := [''Authorization: Bearer t'']\<rparr>)
     = ([], Panicked ''assignment to entry in nil map'')"
  by code_simp

subsection \<open>What lines 80 to 104 do with a map that was made\<close>

text \<open>
  The two lemmas look at the loop of lines 80 to 87 and at lines 95 to 104 on their own,
  for request parameters whose \<open>Headers\<close> is a map. No run of \<open>main\<close> has such parameters.
\<close>

lemma TrimSpace_is_take: "\<exists>k. TrimSpace s = take k (dropWhile is_space s)"
proof -
  let ?d = "dropWhile is_space s"
  let ?n = "length (takeWhile is_space (rev ?d))"
  have "rev (dropWhile is_space (rev ?d)) = rev (drop ?n (rev ?d))"
    by (simp only: dropWhile_eq_drop)
  also have "\<dots> = take (length ?d - ?n) ?d"
    by (simp only: rev_drop rev_rev_ident length_rev)
  finally show ?thesis
    unfolding TrimSpace_def by blast
qed

lemma TrimSpace_no_leading: "dropWhile is_space (TrimSpace s) = TrimSpace s"
proof (cases "TrimSpace s")
  case Nil
  then show ?thesis by simp
next
  case (Cons x xs)
  let ?d = "dropWhile is_space s"
  from TrimSpace_is_take obtain k where k: "TrimSpace s = take k ?d"
    by blast
  with Cons have ne: "?d \<noteq> []" and x: "x = hd ?d"
    by (cases ?d; cases k; simp)+
  from ne have "\<not> is_space (hd ?d)"
    by (rule hd_dropWhile)
  with x Cons show ?thesis
    by simp
qed

lemma TrimSpace_twice: "TrimSpace (TrimSpace s) = TrimSpace s"
proof -
  have "dropWhile is_space (rev (TrimSpace s)) = rev (TrimSpace s)"
    by (simp add: TrimSpace_def dropWhile_idem)
  then show ?thesis
    by (simp add: TrimSpace_def [of "TrimSpace s"] TrimSpace_no_leading)
qed

lemma add_headers_made_map:
  assumes "Headers rp = Some m" and "CHR '':'' \<in> set h"
  shows "add_headers rp [h] =
           ok (rp\<lparr>Headers := Some (AList.update
                 (CanonicalMIMEHeaderKey (TrimSpace (takeWhile (\<lambda>x. x \<noteq> CHR '':'') h)))
                 [TrimSpace (tl (dropWhile (\<lambda>x. x \<noteq> CHR '':'') h))] m)\<rparr>)"
  using assms by (simp add: split_at_colon(1) Header_Set_def and_then_simps)

lemma copy_headers_ok:
  "has_values m \<Longrightarrow> \<exists>h'. copy_headers m h = ok h'"
proof (induction m arbitrary: h)
  case Nil
  show ?case by (simp add: ok_def)
next
  case (Cons kv m)
  obtain k v where kv: "kv = (k, v)" by (cases kv)
  with Cons.prems obtain v0 vs where v: "v = v0 # vs" and m: "has_values m"
    by (cases v) (simp_all add: has_values_def)
  from Cons.IH [OF m] kv v show ?case
    by (simp add: Header_Set_def and_then_simps)
qed

lemma build_request_basic_last:
  assumes "http_NewRequest w (Method rp) (urlStr c) = None"
    and "Headers rp = Some m" and "has_values m" and "Auth rp = Some a"
  shows "\<exists>req. build_request w c rp = ok req \<and>
           map_of (req_header req) ''Authorization''
             = Some [''Basic '' @ EncodeToString (Username a @ '':'' @ Password a)]"
proof -
  from copy_headers_ok [OF assms(3)] obtain h' where h': "copy_headers m [] = ok h'"
    by blast
  with assms(1,2,4) show ?thesis
    by (simp add: build_request_def and_then_simps add_auth_def Header_Set_def
        canonical_Authorization update_conv' ok_def)
qed

subsection \<open>Redirects\<close>

lemma exchange_stops:
  assumes "\<not> followRedirects c" and "0 < exchanges_in_time w"
    and "RoundTrip w (request_of c) = Inr resp"
    and "redirect w (request_of c) resp = Some next_req"
  shows "exchange w c = ([Sent (request_of c)], Inr resp)"
proof -
  from assms(2) obtain n where n: "exchanges_in_time w = Suc n"
    by (cases "exchanges_in_time w") simp_all
  from assms(1) have "CheckRedirect (params_of c) = (\<lambda>r v. Some ErrUseLastResponse)"
    by (simp add: CheckRedirect_params_of)
  then show ?thesis
    unfolding exchange_def n using client_loop_stops [OF assms(3) assms(4)] by simp
qed

lemma exchange_follows:
  assumes "followRedirects c" and "follows w (request_of c) hops final"
    and "length hops < exchanges_in_time w"
    and "RoundTrip w final = Inr resp" and "redirect w final resp = None"
  shows "exchange w c = (map Sent (hops @ [final]), Inr resp)"
proof -
  from assms(1) have "CheckRedirect (params_of c) = (\<lambda>r v. None)"
    by (simp add: CheckRedirect_params_of)
  then show ?thesis
    unfolding exchange_def
    using client_loop_follows [OF assms(2) assms(4) assms(5) assms(3)] by simp
qed

lemma sent_map_Sent: "sent (map Sent rs) = rs"
  by (induction rs) simp_all

text \<open>
  C7. Let the command line be ready, so that the request is handed to the client. With
  \<open>-follow\<close> false: if the server answers the request with a redirect (a response for
  which the client has a follow-up request) and its header values are there, then this
  one request is all that is sent, and the run prints the status line and the headers of
  that response. With \<open>-follow\<close> true: if from the request on each response is a redirect
  to the next request of \<open>hops\<close>, the last one leads to \<open>final\<close>, the answer to \<open>final\<close> is
  no redirect, and the exchanges fit into the timeout, then the requests sent are those
  of \<open>hops\<close> and then \<open>final\<close>, and the run prints the status line and the headers of the
  answer to \<open>final\<close>.
\<close>

theorem redirect_policy:
  "ready w c \<Longrightarrow>
     (\<not> followRedirects c \<and> 0 < exchanges_in_time w \<and>
      RoundTrip w (request_of c) = Inr resp \<and>
      redirect w (request_of c) resp = Some next_req \<and> has_values (resp_header resp) \<longrightarrow>
        sent (events (main w c)) = [request_of c] \<and>
        stdout_of (events (main w c))
          = head_text resp @ stdout_of (fst (print_body w resp))) \<and>
     (followRedirects c \<and> follows w (request_of c) hops final \<and>
      length hops < exchanges_in_time w \<and>
      RoundTrip w final = Inr last_resp \<and> redirect w final last_resp = None \<and>
      has_values (resp_header last_resp) \<longrightarrow>
        sent (events (main w c)) = hops @ [final] \<and>
        stdout_of (events (main w c))
          = head_text last_resp @ stdout_of (fst (print_body w last_resp)))"
proof (intro conjI impI)
  assume r: "ready w c"
  {
    assume a: "\<not> followRedirects c \<and> 0 < exchanges_in_time w \<and>
      RoundTrip w (request_of c) = Inr resp \<and>
      redirect w (request_of c) resp = Some next_req \<and> has_values (resp_header resp)"
    then have x: "exchange w c = ([Sent (request_of c)], Inr resp)"
      by (simp add: exchange_stops)
    with r show "sent (events (main w c)) = [request_of c]"
      by (simp add: main_sent)
    from x have "snd (exchange w c) = Inr resp"
      by simp
    from main_received(1) [OF r this] a
    show "stdout_of (events (main w c)) = head_text resp @ stdout_of (fst (print_body w resp))"
      by simp
  }
  {
    assume a: "followRedirects c \<and> follows w (request_of c) hops final \<and>
      length hops < exchanges_in_time w \<and>
      RoundTrip w final = Inr last_resp \<and> redirect w final last_resp = None \<and>
      has_values (resp_header last_resp)"
    then have x: "exchange w c = (map Sent (hops @ [final]), Inr last_resp)"
      by (intro exchange_follows) simp_all
    with r show "sent (events (main w c)) = hops @ [final]"
      by (simp add: main_sent sent_map_Sent sent_append)
    from x have "snd (exchange w c) = Inr last_resp"
      by simp
    from main_received(1) [OF r this] a
    show "stdout_of (events (main w c))
            = head_text last_resp @ stdout_of (fst (print_body w last_resp))"
      by simp
  }
qed

theorem redirect_policy_witness:
  "sent (events (main (sample_world serve_moved) (just_url ''http://a.test/old'')))
     = [request_of (just_url ''http://a.test/old'')] \<and>
   prefix (''HTTP/1.1 302 Found'' @ nl @ ''Location: http://a.test/new'' @ nl @ nl)
     (stdout_of (events (main (sample_world serve_moved) (just_url ''http://a.test/old'')))) \<and>
   sent (events (main (sample_world serve_moved)
                   ((just_url ''http://a.test/old'')\<lparr>followRedirects := True\<rparr>)))
     = [request_of (just_url ''http://a.test/old''),
        (request_of (just_url ''http://a.test/old''))\<lparr>req_url := ''http://a.test/new''\<rparr>] \<and>
   prefix (''HTTP/1.1 200 OK'' @ nl)
     (stdout_of (events (main (sample_world serve_moved)
                           ((just_url ''http://a.test/old'')\<lparr>followRedirects := True\<rparr>))))"
proof -
  let ?w = "sample_world serve_moved"
  let ?c = "just_url ''http://a.test/old''"
  let ?d = "(just_url ''http://a.test/old'')\<lparr>followRedirects := True\<rparr>"
  let ?new = "(request_of ?c)\<lparr>req_url := ''http://a.test/new''\<rparr>"
  have r: "ready ?w ?c"
    by (simp add: ready_def validated_def sample_world_def just_url_def)
  have a: "\<not> followRedirects ?c \<and> 0 < exchanges_in_time ?w \<and>
      RoundTrip ?w (request_of ?c) = Inr (answer_302 ''http://a.test/new'') \<and>
      redirect ?w (request_of ?c) (answer_302 ''http://a.test/new'') = Some ?new \<and>
      has_values (resp_header (answer_302 ''http://a.test/new''))"
    by (simp add: sample_world_def just_url_def request_of_def serve_moved_def
        sample_redirect_def answer_302_def has_values_def body_of_def)
  note t = redirect_policy [OF r, THEN conjunct1, rule_format, OF a]
  have h1: "head_text (answer_302 ''http://a.test/new'')
              = ''HTTP/1.1 302 Found'' @ nl @ ''Location: http://a.test/new'' @ nl @ nl"
    by code_simp
  note s = t [THEN conjunct2, unfolded h1]
  have p1: "prefix (''HTTP/1.1 302 Found'' @ nl @ ''Location: http://a.test/new'' @ nl @ nl)
     (stdout_of (events (main ?w ?c)))"
    by (rule prefixI [OF s])
  have r': "ready ?w ?d"
    by (simp add: ready_def validated_def sample_world_def just_url_def)
  have d: "request_of ?d = request_of ?c"
    by (simp add: request_of_def just_url_def body_of_def)
  have a': "followRedirects ?d \<and> follows ?w (request_of ?d) [request_of ?c] ?new \<and>
      length [request_of ?c] < exchanges_in_time ?w \<and>
      RoundTrip ?w ?new = Inr (answer_200 ''{\"b\":2,\"a\":1}'') \<and>
      redirect ?w ?new (answer_200 ''{\"b\":2,\"a\":1}'') = None \<and>
      has_values (resp_header (answer_200 ''{\"b\":2,\"a\":1}''))"
    by (simp add: sample_world_def just_url_def request_of_def serve_moved_def
        sample_redirect_def answer_302_def answer_200_def has_values_def body_of_def)
  note t' = redirect_policy [OF r', THEN conjunct2, rule_format, OF a']
  have h2: "head_text (answer_200 ''{\"b\":2,\"a\":1}'')
              = (''HTTP/1.1 200 OK'' @ nl) @ (''Content-Type: application/json'' @ nl @ nl)"
    by code_simp
  note s' = t' [THEN conjunct2, unfolded h2]
  have p2: "prefix (''HTTP/1.1 200 OK'' @ nl) (stdout_of (events (main ?w ?d)))"
    by (rule prefixI [OF trans [OF s' append_assoc]])
  have q: "[request_of ?c] @ [?new] = [request_of ?c, ?new]"
    by simp
  note s2 = t' [THEN conjunct1, unfolded q]
  show ?thesis
    by (intro conjI) (rule t [THEN conjunct1], rule p1, rule s2, rule p2)
qed

subsection \<open>The body\<close>

lemma print_body_text:
  "resp_body resp = Inr body \<Longrightarrow>
   stdout_of (fst (print_body w resp)) =
     (case json_decode w body of
        Inl err \<Rightarrow> ''Error unmarshaling JSON: '' @ err @ nl
      | Inr v \<Rightarrow>
          if is_object_or_null v then
            (case json_MarshalIndent w v [] ''  '' of
               Inl err \<Rightarrow> ''Error marshaling JSON: '' @ err @ nl
             | Inr prettyJSON \<Rightarrow> prettyJSON @ nl)
          else ''Error unmarshaling JSON: json: cannot unmarshal '' @ json_kind v
                 @ '' into Go value of type map[string]interface {}'' @ nl)"
proof (cases "json_decode w body")
  case (Inl err)
  assume "resp_body resp = Inr body"
  with Inl show ?thesis
    by (simp add: print_body_def Unmarshal_def)
next
  case (Inr v)
  assume "resp_body resp = Inr body"
  with Inr show ?thesis
    by (cases v) (simp_all add: print_body_def Unmarshal_def MarshalIndent_def split: sum.splits)
qed

lemma print_body_unmarshal_error:
  "resp_body resp = Inr body \<Longrightarrow> Unmarshal w body = Inl err \<Longrightarrow>
   print_body w resp = ([Stdout (''Error unmarshaling JSON: '' @ err @ nl)], Inr ())"
  by (simp add: print_body_def)

text \<open>
  C3, as amended. Let the run receive a response whose body is read in full. The run
  then prints the status line, the header lines and the empty line, and after them:
  for a body that \<open>encoding/json\<close> decodes to an object or to \<open>null\<close>, the text that
  \<open>json.MarshalIndent\<close> gives for the decoded value with an empty prefix and an indent of
  two spaces, and a line feed; for a body that it decodes to an array, a string, a number
  or a boolean, one line with the error of unmarshaling that kind of value into a map;
  for a body that it cannot decode, one line with the decoder's error. In the last two
  cases nothing else is printed. \<open>main\<close> returns in all of them.
\<close>

theorem object_reprinted_else_error:
  "ready w c \<Longrightarrow> snd (exchange w c) = Inr resp \<Longrightarrow> has_values (resp_header resp) \<Longrightarrow>
   resp_body resp = Inr body \<Longrightarrow>
     ending_of (main w c) = Returned \<and>
     stdout_of (events (main w c)) =
       head_text resp @
       (case json_decode w body of
          Inl err \<Rightarrow> ''Error unmarshaling JSON: '' @ err @ nl
        | Inr v \<Rightarrow>
            if is_object_or_null v then
              (case json_MarshalIndent w v [] ''  '' of
                 Inl err \<Rightarrow> ''Error marshaling JSON: '' @ err @ nl
               | Inr prettyJSON \<Rightarrow> prettyJSON @ nl)
            else ''Error unmarshaling JSON: json: cannot unmarshal '' @ json_kind v
                   @ '' into Go value of type map[string]interface {}'' @ nl)"
proof -
  assume r: "ready w c" and x: "snd (exchange w c) = Inr resp"
    and h: "has_values (resp_header resp)" and b: "resp_body resp = Inr body"
  from main_received(2) [OF r x h] b have "ending_of (main w c) = Returned"
    by simp
  moreover note main_received(1) [OF r x h] print_body_text [OF b, of w]
  ultimately show ?thesis
    by simp
qed


theorem object_reprinted_else_error_witness:
  \<open>stdout_of (events (main (sample_world (serve_body ''{"b":2,"a":1}''))
                         (just_url ''http://a.test/'')))
     = ''HTTP/1.1 200 OK'' @ nl @ ''Content-Type: application/json'' @ nl @ nl
       @ ''{'' @ nl @ ''  "a": 1,'' @ nl @ ''  "b": 2'' @ nl @ ''}'' @ nl \<and>
   stdout_of (events (main (sample_world (serve_body ''not json''))
                         (just_url ''http://a.test/'')))
     = ''HTTP/1.1 200 OK'' @ nl @ ''Content-Type: application/json'' @ nl @ nl
       @ ''Error unmarshaling JSON: invalid character '' @ quoted ''o''
       @ '' in literal null (expecting '' @ quoted ''u'' @ '')'' @ nl\<close>
proof -
  let ?c = "just_url ''http://a.test/''"
  have stdout: "stdout_of (events (main (sample_world (serve_body body)) ?c))
          = head_text (answer_200 body) @
            (case json_decode (sample_world (serve_body body)) body of
               Inl err \<Rightarrow> ''Error unmarshaling JSON: '' @ err @ nl
             | Inr v \<Rightarrow>
                 if is_object_or_null v then
                   (case json_MarshalIndent (sample_world (serve_body body)) v [] ''  '' of
                      Inl err \<Rightarrow> ''Error marshaling JSON: '' @ err @ nl
                    | Inr prettyJSON \<Rightarrow> prettyJSON @ nl)
                 else ''Error unmarshaling JSON: json: cannot unmarshal '' @ json_kind v
                        @ '' into Go value of type map[string]interface {}'' @ nl)"
    for body
  proof -
    let ?w = "sample_world (serve_body body)"
    have r: "ready ?w ?c"
      by (simp add: ready_def validated_def sample_world_def just_url_def)
    have x: "snd (exchange ?w ?c) = Inr (answer_200 body)"
      by (simp add: exchange_def sample_world_def serve_body_def sample_redirect_def
          answer_200_def numeral_eq_Suc)
    have h: "has_values (resp_header (answer_200 body))"
      by (simp add: has_values_def answer_200_def)
    have b: "resp_body (answer_200 body) = Inr body"
      by (simp add: answer_200_def)
    from object_reprinted_else_error [OF r x h b] show ?thesis
      by (rule conjunct2)
  qed
  have object: \<open>head_text (answer_200 ''{"b":2,"a":1}'') @
            (case json_decode (sample_world (serve_body ''{"b":2,"a":1}'')) ''{"b":2,"a":1}'' of
               Inl err \<Rightarrow> ''Error unmarshaling JSON: '' @ err @ nl
             | Inr v \<Rightarrow>
                 if is_object_or_null v then
                   (case json_MarshalIndent (sample_world (serve_body ''{"b":2,"a":1}'')) v []
                           ''  '' of
                      Inl err \<Rightarrow> ''Error marshaling JSON: '' @ err @ nl
                    | Inr prettyJSON \<Rightarrow> prettyJSON @ nl)
                 else ''Error unmarshaling JSON: json: cannot unmarshal '' @ json_kind v
                        @ '' into Go value of type map[string]interface {}'' @ nl)
      = ''HTTP/1.1 200 OK'' @ nl @ ''Content-Type: application/json'' @ nl @ nl
        @ ''{'' @ nl @ ''  "a": 1,'' @ nl @ ''  "b": 2'' @ nl @ ''}'' @ nl\<close>
    by code_simp
  have plain: "head_text (answer_200 ''not json'') @
            (case json_decode (sample_world (serve_body ''not json'')) ''not json'' of
               Inl err \<Rightarrow> ''Error unmarshaling JSON: '' @ err @ nl
             | Inr v \<Rightarrow>
                 if is_object_or_null v then
                   (case json_MarshalIndent (sample_world (serve_body ''not json'')) v []
                           ''  '' of
                      Inl err \<Rightarrow> ''Error marshaling JSON: '' @ err @ nl
                    | Inr prettyJSON \<Rightarrow> prettyJSON @ nl)
                 else ''Error unmarshaling JSON: json: cannot unmarshal '' @ json_kind v
                        @ '' into Go value of type map[string]interface {}'' @ nl)
      = ''HTTP/1.1 200 OK'' @ nl @ ''Content-Type: application/json'' @ nl @ nl
        @ ''Error unmarshaling JSON: invalid character '' @ quoted ''o''
        @ '' in literal null (expecting '' @ quoted ''u'' @ '')'' @ nl"
    by code_simp
  show ?thesis
    by (intro conjI) (rule trans [OF stdout object], rule trans [OF stdout plain])
qed

text \<open>
  C3 as it was stated fails for a body that is valid JSON and not an object: the array
  \<open>[1,2]\<close> decodes, and the run prints the error of unmarshaling an array into a map
  instead of the array re-indented.
\<close>

theorem array_body_not_reprinted:
  \<open>json_decode (sample_world (serve_body ''[1,2]'')) ''[1,2]''
     = Inr (JArray [JNumber ''1'', JNumber ''2'']) \<and>
   stdout_of (events (main (sample_world (serve_body ''[1,2]'')) (just_url ''http://a.test/'')))
     = ''HTTP/1.1 200 OK'' @ nl @ ''Content-Type: application/json'' @ nl @ nl
       @ ''Error unmarshaling JSON: json: cannot unmarshal array into Go value of type map[string]interface {}''
       @ nl\<close>
  by code_simp

text \<open>
  C4. Let the run receive a response. If its body is read in full and \<open>json.Unmarshal\<close>
  returns an error, the run prints the error in one line on standard output after the
  head of the response, the deferred close of the response body runs last, and \<open>main\<close>
  returns: the exit status is 0. If reading the body fails, the last event is the log
  message of \<open>log.Fatalf\<close> and the exit status is 1.
\<close>

theorem unmarshal_error_returns:
  "ready w c \<Longrightarrow> snd (exchange w c) = Inr resp \<Longrightarrow> has_values (resp_header resp) \<Longrightarrow>
     (resp_body resp = Inr body \<and> Unmarshal w body = Inl err \<longrightarrow>
        ending_of (main w c) = Returned \<and>
        exit_status (ending_of (main w c)) = 0 \<and>
        stdout_of (events (main w c))
          = head_text resp @ ''Error unmarshaling JSON: '' @ err @ nl \<and>
        last (events (main w c)) = Closed_response_body) \<and>
     (resp_body resp = Inl read_err \<longrightarrow>
        ending_of (main w c) = Exited 1 \<and>
        exit_status (ending_of (main w c)) = 1 \<and>
        last (events (main w c)) = Log (''Error reading response body: '' @ read_err))"
proof (intro conjI impI)
  assume r: "ready w c" and x: "snd (exchange w c) = Inr resp"
    and h: "has_values (resp_header resp)"
  note m = main_received [OF r x h]
  {
    assume a: "resp_body resp = Inr body \<and> Unmarshal w body = Inl err"
    then have pb: "print_body w resp = ([Stdout (''Error unmarshaling JSON: '' @ err @ nl)], Inr ())"
      by (simp add: print_body_unmarshal_error)
    from a m(2) show e: "ending_of (main w c) = Returned"
      by simp
    then show "exit_status (ending_of (main w c)) = 0"
      by simp
    from m(1) pb show "stdout_of (events (main w c))
          = head_text resp @ ''Error unmarshaling JSON: '' @ err @ nl"
      by simp
    from a m(3) show "last (events (main w c)) = Closed_response_body"
      by (simp add: rendered_has_values [OF h])
  }
  {
    assume a: "resp_body resp = Inl read_err"
    with m(2) show e: "ending_of (main w c) = Exited 1"
      by simp
    then show "exit_status (ending_of (main w c)) = 1"
      by simp
    from a m(3) show "last (events (main w c)) = Log (''Error reading response body: '' @ read_err)"
      by (simp add: rendered_has_values [OF h])
  }
qed

theorem unmarshal_error_returns_witness:
  "exit_status (ending_of (main (sample_world (serve_body ''not json''))
                             (just_url ''http://a.test/''))) = 0 \<and>
   exit_status (ending_of (main (sample_world serve_broken) (just_url ''http://a.test/''))) = 1"
proof -
  let ?c = "just_url ''http://a.test/''"
  let ?w = "sample_world (serve_body ''not json'')"
  let ?v = "sample_world serve_broken"
  let ?broken = "(answer_200 [])\<lparr>resp_body := Inl ''unexpected EOF''\<rparr>"
  have r: "ready ?w ?c"
    by (simp add: ready_def validated_def sample_world_def just_url_def)
  have x: "snd (exchange ?w ?c) = Inr (answer_200 ''not json'')"
    by (simp add: exchange_def sample_world_def serve_body_def sample_redirect_def
        answer_200_def numeral_eq_Suc)
  have h: "has_values (resp_header (answer_200 ''not json''))"
    by (simp add: has_values_def answer_200_def)
  have u: "resp_body (answer_200 ''not json'') = Inr ''not json'' \<and>
           Unmarshal ?w ''not json''
             = Inl (''invalid character '' @ quoted ''o'' @ '' in literal null (expecting ''
                    @ quoted ''u'' @ '')'')"
    by (simp add: answer_200_def Unmarshal_def sample_world_def sample_decode_def)
  note t = unmarshal_error_returns [OF r x h, THEN conjunct1, rule_format, OF u]
  have r': "ready ?v ?c"
    by (simp add: ready_def validated_def sample_world_def just_url_def)
  have x': "snd (exchange ?v ?c) = Inr ?broken"
    by (simp add: exchange_def sample_world_def serve_broken_def sample_redirect_def
        answer_200_def numeral_eq_Suc)
  have h': "has_values (resp_header ?broken)"
    by (simp add: has_values_def answer_200_def)
  have u': "resp_body ?broken = Inl ''unexpected EOF''"
    by simp
  note t' = unmarshal_error_returns [OF r' x' h', THEN conjunct2, rule_format, OF u']
  from t t' show ?thesis
    by blast
qed

subsection \<open>Resources\<close>

text \<open>
  C9, on the code. Two runs that end with a resource open. With \<open>-file body.json\<close> and
  \<open>-auth nocolon\<close> the file is opened (line 55) and the process leaves through
  \<open>log.Fatalf\<close> (line 67): no event closes the file. With a response whose body breaks
  off while it is read the process leaves through \<open>log.Fatalf\<close> (line 136), which does
  not run the deferred \<open>resp.Body.Close()\<close>: the run has no \<open>Closed_response_body\<close>.
\<close>

theorem resources_left_open:
  "main (sample_world (serve_body ''null''))
     ((just_url ''http://a.test/'')\<lparr>reqBodyFile := ''body.json'', authStr := ''nocolon''\<rparr>)
     = ([Opened ''body.json'',
         Log (''Error: Invalid auth credentials '' @ quoted ''nocolon'')], Exited 1) \<and>
   main (sample_world serve_broken) (just_url ''http://a.test/'')
     = ([Sent (request_of (just_url ''http://a.test/'')),
         Stdout (''HTTP/1.1 200 OK'' @ nl),
         Stdout (''Content-Type: application/json'' @ nl),
         Stdout nl,
         Log ''Error reading response body: unexpected EOF''], Exited 1)"
  by code_simp

text \<open>
  Two more general facts behind C9. A run that opens the body file and ends before the
  request is handed to the client never closes the file; a run whose response body fails
  while it is read never closes the response body.
\<close>

lemma main_request_refused:
  assumes "validated w c" and "args c = []"
    and "http_NewRequest w (methodStr c) (urlStr c) = Some err"
  shows "main w c = (opened c @ [Log (''Error creating request object: '' @ err)], Exited 1)"
  using assms
  by (simp add: main_def prepare_validated perform_def and_then_simps build_request_params_of
      validated_def finish_def ok_def Fatalf_def)

lemma file_open_at_early_exit:
  assumes "urlStr c \<noteq> []" and "url_Parse w (urlStr c) = None"
    and "reqBodyFile c \<noteq> []" and "os_Open w (reqBodyFile c) = None"
    and "\<not> ready w c"
  shows "hd (events (main w c)) = Opened (reqBodyFile c) \<and>
         Closed (reqBodyFile c) \<notin> set (events (main w c)) \<and>
         ending_of (main w c) \<noteq> Returned"
proof (cases "validated w c")
  case False
  with assms(1-4) have "authStr c \<noteq> []" and "CHR '':'' \<notin> set (authStr c)"
    by (auto simp add: validated_def)
  from main_no_colon_auth_events [OF this assms(1) assms(2)] assms(3,4)
  show ?thesis
    by (simp add: events_def ending_of_def opened_def)
next
  case True
  show ?thesis
  proof (cases "args c")
    case Nil
    with True assms(5) obtain err where "http_NewRequest w (methodStr c) (urlStr c) = Some err"
      by (auto simp add: ready_def)
    from main_request_refused [OF True Nil this] assms(3)
    show ?thesis
      by (simp add: events_def ending_of_def opened_def)
  next
    case (Cons h t)
    from main_first_header [OF True Cons] assms(3)
    show ?thesis
      by (simp add: events_def ending_of_def opened_def)
  qed
qed

lemma client_loop_events: "fst (client_loop w check n req via) = map Sent (sent (fst (client_loop w check n req via)))"
proof (induction w check n req via rule: client_loop.induct)
  case (1 w check req via)
  show ?case by simp
next
  case (2 w check n req via)
  show ?case
  proof (cases "RoundTrip w req")
    case (Inl err)
    then show ?thesis by simp
  next
    case (Inr resp)
    show ?thesis
    proof (cases "redirect w req resp")
      case None
      with Inr show ?thesis by simp
    next
      case (Some nxt)
      show ?thesis
      proof (cases "check nxt (via @ [req])")
        case None
        obtain es r where cl: "client_loop w check n nxt (via @ [req]) = (es, r)"
          by (cases "client_loop w check n nxt (via @ [req])")
        from "2.IH" [OF Inr Some None] cl have "es = map Sent (sent es)" by simp
        with Inr Some None cl show ?thesis by simp
      next
        case (Some e)
        with Inr \<open>redirect w req resp = Some nxt\<close> show ?thesis
          by (cases e) simp_all
      qed
    qed
  qed
qed

lemma response_body_open_at_read_error:
  assumes "ready w c" and "snd (exchange w c) = Inr resp" and "has_values (resp_header resp)"
    and "resp_body resp = Inl err"
  shows "Closed_response_body \<notin> set (events (main w c)) \<and> ending_of (main w c) = Exited 1"
proof -
  have all_sent: "fst (exchange w c) = map Sent (sent (fst (exchange w c)))"
    unfolding exchange_def by (rule client_loop_events)
  have x: "Closed_response_body \<notin> set (fst (exchange w c))"
    by (subst all_sent) auto
  have r: "Closed_response_body \<notin> set (fst (rendered w resp))"
    using assms(4) by (auto simp add: rendered_has_values [OF assms(3)])
  from main_received(2,3) [OF assms(1) assms(2) assms(3)] assms(4) x r show ?thesis
    by (simp add: opened_def closed_body_def)
qed

end
